theory Spec2Isabelle
  imports Main "HOL-Library.Word"
begin

section \<open>Python values used by the front end\<close>

text \<open>
  A Python \<open>str\<close> is a sequence of Unicode code points, so \<open>len\<close> is \<open>length\<close>.
  ASCII literals of the source are written \<open>lit ''...''\<close>; other code points are
  given by number. \<open>bytes\<close> are octets.
\<close>

type_synonym pystr = "nat list"
type_synonym bytes = "8 word list"

abbreviation lit :: "string \<Rightarrow> pystr" where
  "lit s \<equiv> map of_char s"

definition nl :: pystr where
  "nl = [10]"

definition quote :: pystr where
  "quote = [39]"

text \<open>
  An exception object: its class and its arguments. The text \<open>str(e)\<close> is produced by
  the Python runtime and is a parameter of the model (\<open>str_exc\<close> below).
\<close>

datatype exn = PyErr string pystr

text \<open>\<open>str(n)\<close> for a non-negative integer: its decimal digits.\<close>

fun py_str_nat :: "nat \<Rightarrow> pystr" where
  "py_str_nat n = (if n < 10 then [48 + n] else py_str_nat (n div 10) @ [48 + n mod 10])"

declare py_str_nat.simps [simp del]

text \<open>
  The code points for which \<open>str.isspace\<close> holds; \<open>str.strip()\<close> with no argument
  removes them from both ends.
\<close>

definition py_isspace :: "nat \<Rightarrow> bool" where
  "py_isspace c \<longleftrightarrow>
     (9 \<le> c \<and> c \<le> 13) \<or> (28 \<le> c \<and> c \<le> 32) \<or> c = 133 \<or> c = 160 \<or> c = 5760 \<or>
     (8192 \<le> c \<and> c \<le> 8202) \<or> c = 8232 \<or> c = 8233 \<or> c = 8239 \<or> c = 8287 \<or> c = 12288"

definition py_strip :: "pystr \<Rightarrow> pystr" where
  "py_strip s = rev (dropWhile py_isspace (rev (dropWhile py_isspace s)))"

text \<open>\<open>sep.join(xs)\<close>.\<close>

fun py_join :: "pystr \<Rightarrow> pystr list \<Rightarrow> pystr" where
  "py_join sep [] = []"
| "py_join sep [x] = x"
| "py_join sep (x # y # ys) = x @ sep @ py_join sep (y # ys)"

text \<open>
  \<open>str.lower()\<close>. On a string of ASCII code points it maps \<open>A..Z\<close> to \<open>a..z\<close> and
  leaves the rest; the Unicode case mapping of any other string is the runtime's
  (\<open>lower_unicode\<close>, a parameter).
\<close>

definition ascii_lower :: "nat \<Rightarrow> nat" where
  "ascii_lower c = (if 65 \<le> c \<and> c \<le> 90 then c + 32 else c)"

definition py_lower :: "(pystr \<Rightarrow> pystr) \<Rightarrow> pystr \<Rightarrow> pystr" where
  "py_lower lower_unicode s =
     (if \<forall>c \<in> set s. c < 128 then map ascii_lower s else lower_unicode s)"

section \<open>pathlib: name, suffix and stem of a POSIX path\<close>

fun split_on :: "'a \<Rightarrow> 'a list \<Rightarrow> 'a list list" where
  "split_on d [] = [[]]"
| "split_on d (c # cs) =
     (if c = d then [] # split_on d cs
      else (case split_on d cs of [] \<Rightarrow> [[c]] | p # ps \<Rightarrow> (c # p) # ps))"

text \<open>
  The parts of a relative path: the text between slashes, without the empty parts and
  the \<open>.\<close> parts, which \<open>PurePosixPath\<close> drops. \<open>Path(s).name\<close> is the last part, or
  the empty string when there is none.
\<close>

definition path_parts :: "pystr \<Rightarrow> pystr list" where
  "path_parts s = filter (\<lambda>p. p \<noteq> [] \<and> p \<noteq> lit ''.'') (split_on 47 s)"

definition path_name :: "pystr \<Rightarrow> pystr" where
  "path_name s = (case path_parts s of [] \<Rightarrow> [] | p # ps \<Rightarrow> last (p # ps))"

text \<open>\<open>str.rfind(c)\<close>: the index of the last occurrence, or \<open>-1\<close>.\<close>

fun rfind :: "'a \<Rightarrow> 'a list \<Rightarrow> int" where
  "rfind c [] = -1"
| "rfind c (x # xs) =
     (let r = rfind c xs in if 0 \<le> r then r + 1 else if x = c then 0 else -1)"

text \<open>
  \<open>PurePath.suffix\<close> and \<open>PurePath.stem\<close> (CPython up to 3.13):
  with \<open>i = name.rfind('.')\<close>, the suffix is \<open>name[i:]\<close> and the stem \<open>name[:i]\<close> when
  \<open>0 < i < len(name) - 1\<close>; otherwise the suffix is empty and the stem is the name.
\<close>

definition suffix :: "pystr \<Rightarrow> pystr" where
  "suffix s =
     (let name = path_name s; i = rfind 46 name
      in if 0 < i \<and> i < int (length name) - 1 then drop (nat i) name else [])"

definition stem :: "pystr \<Rightarrow> pystr" where
  "stem s =
     (let name = path_name s; i = rfind 46 name
      in if 0 < i \<and> i < int (length name) - 1 then take (nat i) name else name)"

section \<open>The file system\<close>

text \<open>
  Paths are kept as written (relative to the working directory, which exists); \<open>.\<close>,
  \<open>..\<close> and links are not resolved. \<open>faults\<close> holds the refusals of the operating
  system that the tree does not determine (permissions, name length, a full disk).
\<close>

datatype node = Dir | File pystr

record filesystem =
  nodes :: "pystr \<rightharpoonup> node"
  faults :: "pystr \<rightharpoonup> exn"

text \<open>\<open>os.makedirs(path, exist_ok=True)\<close> for a path of one component.\<close>

definition makedirs :: "pystr \<Rightarrow> filesystem \<Rightarrow> exn + filesystem" where
  "makedirs path fs =
     (case faults fs path of
        Some e \<Rightarrow> Inl e
      | None \<Rightarrow>
          (case nodes fs path of
             None \<Rightarrow> Inr (fs\<lparr>nodes := (nodes fs)(path \<mapsto> Dir)\<rparr>)
           | Some Dir \<Rightarrow> Inr fs
           | Some (File _) \<Rightarrow> Inl (PyErr ''FileExistsError'' path)))"

definition dirname :: "pystr \<Rightarrow> pystr" where
  "dirname path = (let i = rfind 47 path in if 0 \<le> i then take (nat i) path else [])"

definition is_surrogate :: "nat \<Rightarrow> bool" where
  "is_surrogate c \<longleftrightarrow> 55296 \<le> c \<and> c \<le> 57343"

text \<open>
  \<open>with open(path, 'w', encoding='utf-8') as f: f.write(text)\<close>. Opening fails on a
  NUL in the path, a missing parent, a parent that is a file, or a directory at the path;
  it truncates the file. Writing fails, on the emptied file, when the text holds a
  surrogate, which UTF-8 cannot encode. The result is the exception raised, if any, and
  the file system left behind.
\<close>

definition write_text :: "pystr \<Rightarrow> pystr \<Rightarrow> filesystem \<Rightarrow> exn option \<times> filesystem" where
  "write_text path text fs =
     (if 0 \<in> set path then (Some (PyErr ''ValueError'' (lit ''embedded null byte'')), fs)
      else
       (case faults fs path of
          Some e \<Rightarrow> (Some e, fs)
        | None \<Rightarrow>
            (case nodes fs (dirname path) of
               None \<Rightarrow> (Some (PyErr ''FileNotFoundError'' path), fs)
             | Some (File _) \<Rightarrow> (Some (PyErr ''NotADirectoryError'' path), fs)
             | Some Dir \<Rightarrow>
                 (case nodes fs path of
                    Some Dir \<Rightarrow> (Some (PyErr ''IsADirectoryError'' path), fs)
                  | _ \<Rightarrow>
                      if \<exists>c \<in> set text. is_surrogate c
                      then (Some (PyErr ''UnicodeEncodeError'' text),
                            fs\<lparr>nodes := (nodes fs)(path \<mapsto> File [])\<rparr>)
                      else (None, fs\<lparr>nodes := (nodes fs)(path \<mapsto> File text)\<rparr>)))))"

section \<open>The libraries the front end calls\<close>

text \<open>
  A \<open>pandas.DataFrame\<close> as \<open>read_csv\<close> with its default arguments builds it: column
  labels are strings, each column has a dtype, and the rows hold one cell per column.
  The cell type is left open.
\<close>

datatype dtype = Int64 | UInt64 | Float64 | Bool | Object

record 'c dataframe =
  columns :: "(pystr \<times> dtype) list"
  rows :: "'c list list"

text \<open>\<open>df.head(n)\<close>, \<open>df.select_dtypes(include=['number']).columns\<close> and \<open>df[labels]\<close>.\<close>

definition head :: "nat \<Rightarrow> 'c dataframe \<Rightarrow> 'c dataframe" where
  "head n df = df\<lparr>rows := take n (rows df)\<rparr>"

definition is_number :: "dtype \<Rightarrow> bool" where
  "is_number d \<longleftrightarrow> d = Int64 \<or> d = UInt64 \<or> d = Float64"

definition numeric_cols :: "'c dataframe \<Rightarrow> pystr list" where
  "numeric_cols df = map fst (filter (\<lambda>c. is_number (snd c)) (columns df))"

definition select_cols :: "pystr list \<Rightarrow> 'c dataframe \<Rightarrow> 'c dataframe" where
  "select_cols labels df =
     df\<lparr>columns := filter (\<lambda>c. fst c \<in> set labels) (columns df),
        rows := map (\<lambda>r. map snd (filter (\<lambda>p. fst (fst p) \<in> set labels) (zip (columns df) r)))
                 (rows df)\<rparr>"

text \<open>
  What the Python runtime and the third-party packages compute. A call that can raise
  returns \<open>Inl\<close> of the exception.
  \<^item> \<open>str_exc\<close>: \<open>str(e)\<close> of an exception;
  \<^item> \<open>lower_unicode\<close>: \<open>str.lower\<close> on a string that is not all ASCII;
  \<^item> \<open>decode_utf8\<close>: \<open>str(b, "utf-8")\<close>;
  \<^item> \<open>docx_Document\<close>: \<open>docx.Document(file)\<close>, as the texts of its paragraphs;
  \<^item> \<open>PdfReader\<close>: \<open>PyPDF2.PdfReader(file)\<close>, as the outcome of \<open>extract_text()\<close>
    on each of its pages;
  \<^item> \<open>read_csv\<close>: \<open>pandas.read_csv(file)\<close>;
  \<^item> \<open>to_string_noindex\<close>: \<open>df.to_string(index=False)\<close>;
  \<^item> \<open>describe_to_string\<close>: \<open>df.describe().to_string()\<close>.
\<close>

record 'c libs =
  str_exc :: "exn \<Rightarrow> pystr"
  lower_unicode :: "pystr \<Rightarrow> pystr"
  decode_utf8 :: "bytes \<Rightarrow> exn + pystr"
  docx_Document :: "bytes \<Rightarrow> exn + pystr list"
  PdfReader :: "bytes \<Rightarrow> exn + (exn + pystr) list"
  read_csv :: "bytes \<Rightarrow> exn + 'c dataframe"
  to_string_noindex :: "'c dataframe \<Rightarrow> pystr"
  describe_to_string :: "'c dataframe \<Rightarrow> pystr"

text \<open>A Streamlit \<open>UploadedFile\<close>: its name and the bytes \<open>read()\<close> returns.\<close>

record upload =
  name :: pystr
  data :: bytes

section \<open>The state the front end acts on\<close>

text \<open>
  \<open>ui\<close> is what Streamlit has been asked to show, in order; \<open>calls\<close> is the list of
  method calls made on the document processor, each with its method name and arguments;
  \<open>dp\<close> is the state of the document processor object.
\<close>

datatype ui_msg = St_error pystr | St_success pystr | St_info pystr

datatype proc_call = Call string "pystr list"

record 'p world =
  fs :: filesystem
  ui :: "ui_msg list"
  calls :: "proc_call list"
  dp :: 'p

definition st_error :: "pystr \<Rightarrow> 'p world \<Rightarrow> 'p world" where
  "st_error m w = w\<lparr>ui := ui w @ [St_error m]\<rparr>"

definition st_success :: "pystr \<Rightarrow> 'p world \<Rightarrow> 'p world" where
  "st_success m w = w\<lparr>ui := ui w @ [St_success m]\<rparr>"

definition st_info :: "pystr \<Rightarrow> 'p world \<Rightarrow> 'p world" where
  "st_info m w = w\<lparr>ui := ui w @ [St_info m]\<rparr>"

text \<open>
  \<open>DocumentProcessor.process_text_file(file_path, document_id)\<close> is not part of the
  front end: its behaviour is a parameter. It reads the file system, returns a truth
  value or raises, and leaves the processor in a new state.
\<close>

type_synonym 'p process_text_file =
  "'p \<Rightarrow> filesystem \<Rightarrow> pystr \<Rightarrow> pystr \<Rightarrow> (exn + bool) \<times> 'p"

section \<open>Text extraction (frontend.py, lines 38 to 86)\<close>

text \<open>
  An extractor touches nothing but the page: it returns the text, or \<open>None\<close>, together
  with the messages it has shown.
\<close>

definition extract_text_from_docx :: "'c libs \<Rightarrow> upload \<Rightarrow> pystr option \<times> ui_msg list" where
  "extract_text_from_docx L file =
     (case docx_Document L (data file) of
        Inl e \<Rightarrow> (None, [St_error (lit ''Error reading DOCX file: '' @ str_exc L e)])
      | Inr paragraphs \<Rightarrow> (Some (foldl (\<lambda>text p. text @ p @ nl) [] paragraphs), []))"

text \<open>The loop over the pages stops at the first page whose extraction raises.\<close>

fun pdf_pages_text :: "pystr \<Rightarrow> (exn + pystr) list \<Rightarrow> exn + pystr" where
  "pdf_pages_text text [] = Inr text"
| "pdf_pages_text text (page # pages) =
     (case page of
        Inl e \<Rightarrow> Inl e
      | Inr t \<Rightarrow> pdf_pages_text (text @ t @ nl) pages)"

definition extract_text_from_pdf :: "'c libs \<Rightarrow> upload \<Rightarrow> pystr option \<times> ui_msg list" where
  "extract_text_from_pdf L file =
     (case PdfReader L (data file) of
        Inl e \<Rightarrow> (None, [St_error (lit ''Error reading PDF file: '' @ str_exc L e)])
      | Inr pages \<Rightarrow>
          (case pdf_pages_text [] pages of
             Inl e \<Rightarrow> (None, [St_error (lit ''Error reading PDF file: '' @ str_exc L e)])
           | Inr text \<Rightarrow> (Some text, [])))"

text \<open>The text built from a parsed CSV file (lines 69 to 83).\<close>

definition csv_text :: "'c libs \<Rightarrow> pystr \<Rightarrow> 'c dataframe \<Rightarrow> pystr" where
  "csv_text L file_name df =
     (let text = lit ''CSV Data from '' @ file_name @ lit '':'' @ nl @ nl;
          text = text @ lit ''Columns: '' @ py_join (lit '', '') (map fst (columns df)) @ nl @ nl;
          text = text @ lit ''Total rows: '' @ py_str_nat (length (rows df)) @ nl @ nl;
          text = text @ lit ''Sample data:'' @ nl;
          text = text @ to_string_noindex L (head 10 df);
          numeric = numeric_cols df
      in if length numeric > 0
         then text @ nl @ nl @ lit ''Summary Statistics:'' @ nl
                @ describe_to_string L (select_cols numeric df)
         else text)"

definition extract_text_from_csv :: "'c libs \<Rightarrow> upload \<Rightarrow> pystr option \<times> ui_msg list" where
  "extract_text_from_csv L file =
     (case read_csv L (data file) of
        Inl e \<Rightarrow> (None, [St_error (lit ''Error reading CSV file: '' @ str_exc L e)])
      | Inr df \<Rightarrow> (Some (csv_text L (name file) df), []))"

section \<open>Processing an upload (frontend.py, lines 88 to 143)\<close>

text \<open>
  How a block of statements ends: with an exception on its way to the handler of
  line 141, with a \<open>return\<close>, or by falling through with a value.
\<close>

datatype 'a flow = Raise exn | Return bool | Next 'a

text \<open>
  Lines 94 to 118: the extension decides the extractor. The result is the value of
  \<open>text_content\<close> at line 120, and the messages shown on the way.
\<close>

definition extract_by_type :: "'c libs \<Rightarrow> upload \<Rightarrow> pystr option flow \<times> ui_msg list" where
  "extract_by_type L uploaded_file =
     (let file_extension = py_lower (lower_unicode L) (suffix (name uploaded_file))
      in if file_extension = lit ''.txt'' then
           (case decode_utf8 L (data uploaded_file) of
              Inl e \<Rightarrow> (Raise e, [])
            | Inr text \<Rightarrow> (Next (Some text), []))
         else if file_extension = lit ''.docx'' then
           (let (text_content, shown) = extract_text_from_docx L uploaded_file
            in (Next text_content, shown))
         else if file_extension = lit ''.pdf'' then
           (let (text_content, shown) = extract_text_from_pdf L uploaded_file
            in (Next text_content, shown))
         else if file_extension = lit ''.csv'' then
           (let (text_content, shown) = extract_text_from_csv L uploaded_file
            in (Next text_content, shown))
         else (Return False, [St_error (lit ''Unsupported file type: '' @ file_extension)]))"

text \<open>
  Lines 120 to 139: the check of the extracted text, the copy saved under
  \<open>uploads/\<close>, and the call of the document processor.
\<close>

definition save_and_process ::
  "'c libs \<Rightarrow> 'p process_text_file \<Rightarrow> upload \<Rightarrow> pystr option \<Rightarrow> 'p world
     \<Rightarrow> (exn + bool) \<times> 'p world" where
  "save_and_process L P uploaded_file text_content w =
     (if text_content = None \<or> text_content = Some []
         \<or> length (py_strip (the text_content)) = 0
      then (Inr False,
            st_error (lit ''Could not extract text from the file or file is empty'') w)
      else
        let text = the text_content;
            file_path = lit ''uploads/'' @ name uploaded_file @ lit ''_processed.txt''
        in (case write_text file_path text (fs w) of
              (Some e, fs') \<Rightarrow> (Inl e, w\<lparr>fs := fs'\<rparr>)
            | (None, fs') \<Rightarrow>
                let document_id = stem (name uploaded_file);
                    (outcome, dp') = P (dp w) fs' file_path document_id;
                    w' = w\<lparr>fs := fs',
                           calls := calls w @ [Call ''process_text_file'' [file_path, document_id]],
                           dp := dp'\<rparr>
                in (case outcome of
                      Inl e \<Rightarrow> (Inl e, w')
                    | Inr success \<Rightarrow>
                        if success
                        then (Inr True,
                              st_info ([128196] @ lit '' Extracted ''
                                         @ py_str_nat (length text) @ lit '' characters of text'')
                                (st_success ([9989] @ lit '' Successfully processed '' @ quote
                                               @ name uploaded_file @ quote @ lit ''!'') w'))
                        else (Inr False, st_error (lit ''Failed to process the document'') w'))))"

text \<open>Lines 91 to 139, the body of the \<open>try\<close>.\<close>

definition process_body ::
  "'c libs \<Rightarrow> 'p process_text_file \<Rightarrow> upload \<Rightarrow> 'p world \<Rightarrow> (exn + bool) \<times> 'p world" where
  "process_body L P uploaded_file w =
     (case makedirs (lit ''uploads'') (fs w) of
        Inl e \<Rightarrow> (Inl e, w)
      | Inr fs1 \<Rightarrow>
          let (text_content, shown) = extract_by_type L uploaded_file;
              w1 = w\<lparr>fs := fs1, ui := ui w @ shown\<rparr>
          in (case text_content of
                Raise e \<Rightarrow> (Inl e, w1)
              | Return result \<Rightarrow> (Inr result, w1)
              | Next text_content \<Rightarrow> save_and_process L P uploaded_file text_content w1))"

text \<open>The whole function: an exception of the body is reported and gives \<open>False\<close>.\<close>

definition process_uploaded_file ::
  "'c libs \<Rightarrow> 'p process_text_file \<Rightarrow> upload \<Rightarrow> 'p world \<Rightarrow> bool \<times> 'p world" where
  "process_uploaded_file L P uploaded_file w =
     (case process_body L P uploaded_file w of
        (Inr result, w') \<Rightarrow> (result, w')
      | (Inl e, w') \<Rightarrow> (False, st_error (lit ''Error processing file: '' @ str_exc L e) w'))"

section \<open>A stand-in environment for running the model\<close>

text \<open>
  Small total functions in place of the libraries, a processor that ingests the file it
  is given when it can read it, and an empty working directory.
\<close>

definition demo_frame :: "nat dataframe" where
  "demo_frame = \<lparr>columns = [(lit ''item'', Object), (lit ''qty'', Int64)], rows = [[0, 2], [1, 5]]\<rparr>"

definition demo_libs :: "nat libs" where
  "demo_libs =
     \<lparr>str_exc = (\<lambda>e. case e of PyErr c m \<Rightarrow> m),
      lower_unicode = (\<lambda>s. s),
      decode_utf8 = (\<lambda>b. if \<forall>x \<in> set b. x < 128 then Inr (map unat b)
                          else Inl (PyErr ''UnicodeDecodeError'' (lit ''invalid start byte''))),
      docx_Document = (\<lambda>b. if b = [] then Inl (PyErr ''PackageNotFoundError'' (lit ''Package not found''))
                            else Inr [map unat b]),
      PdfReader = (\<lambda>b. if b = [] then Inl (PyErr ''EmptyFileError'' (lit ''Cannot read an empty file''))
                        else Inr [Inr (map unat b), Inl (PyErr ''KeyError'' (lit ''/Contents''))]),
      read_csv = (\<lambda>b. if b = [] then Inl (PyErr ''EmptyDataError'' (lit ''No columns to parse from file''))
                       else Inr demo_frame),
      to_string_noindex = (\<lambda>df. py_join nl (map (\<lambda>r. py_join (lit '' '') (map py_str_nat r)) (rows df))),
      describe_to_string = (\<lambda>df. lit ''count '' @ py_str_nat (length (rows df)))\<rparr>"

definition demo_processor :: "(pystr \<times> pystr) list process_text_file" where
  "demo_processor docs files file_path document_id =
     (case nodes files file_path of
        Some (File text) \<Rightarrow> (Inr True, docs @ [(document_id, text)])
      | _ \<Rightarrow> (Inl (PyErr ''FileNotFoundError'' file_path), docs))"

definition demo_world :: "(pystr \<times> pystr) list world" where
  "demo_world = \<lparr>fs = \<lparr>nodes = Map.empty, faults = Map.empty\<rparr>, ui = [], calls = [], dp = []\<rparr>"

text \<open>The path of line 125, and the extensions the chain of lines 100 to 114 accepts.\<close>

definition processed_path :: "upload \<Rightarrow> pystr" where
  "processed_path uploaded_file = lit ''uploads/'' @ name uploaded_file @ lit ''_processed.txt''"

definition supported :: "pystr set" where
  "supported = {lit ''.txt'', lit ''.docx'', lit ''.pdf'', lit ''.csv''}"

text \<open>
  The library behind the extractor that the extension selects raises: on opening the
  document, or, for a PDF, on extracting the text of one of its pages.
\<close>

definition library_error :: "'c libs \<Rightarrow> upload \<Rightarrow> bool" where
  "library_error L file \<longleftrightarrow>
     (let ext = py_lower (lower_unicode L) (suffix (name file))
      in (ext = lit ''.docx'' \<and> isl (docx_Document L (data file)))
       \<or> (ext = lit ''.pdf'' \<and>
            (case PdfReader L (data file) of Inl e \<Rightarrow> True | Inr pages \<Rightarrow> \<exists>p \<in> set pages. isl p))
       \<or> (ext = lit ''.csv'' \<and> isl (read_csv L (data file))))"

section \<open>The core, as the specification describes it\<close>

text \<open>
  \<open>document_processor.py\<close> and \<open>query_engine.py\<close> are not among the sources. What
  follows is written from the specification, sections 3, 4 and 7.
\<close>

text \<open>
  Modelled from the spec: the error conditions of section 7 that the missing core
  raises (\<open>EmptyCorpus\<close> is a result, not an error).
\<close>

datatype core_error = InvalidArgument | InvalidConfiguration | EmbeddingUnavailable | ModelTimeout

text \<open>
  Modelled from the spec: the Chunk of section 3, which the missing vector store holds:
  document id, chunk index, text and vector. The vector type is left open.
\<close>

record 'v chunk =
  document_id :: pystr
  chunk_index :: nat
  passage :: pystr
  vector :: 'v

text \<open>
  Modelled from the spec: the missing VectorStore of section 3, a mapping from a
  monotonically increasing key to a chunk, kept in insertion order, and the dimension
  fixed when the store is made.
\<close>

record 'v vector_store =
  entries :: "(nat \<times> 'v chunk) list"
  next_key :: nat
  dimension :: nat

text \<open>
  Modelled from the spec: \<open>VectorStore.insert\<close> (section 4.3), missing from the
  sources. It appends and overwrites nothing; each chunk gets the next key.
\<close>

definition insert_chunks :: "'v chunk list \<Rightarrow> 'v vector_store \<Rightarrow> 'v vector_store" where
  "insert_chunks chunks s =
     s\<lparr>entries := entries s @ zip [next_key s ..< next_key s + length chunks] chunks,
       next_key := next_key s + length chunks\<rparr>"

text \<open>
  Modelled from the spec: \<open>VectorStore.delete_by_document\<close> (section 4.3), missing from
  the sources. It removes every chunk of the id and returns how many there were.
\<close>

definition delete_by_document :: "pystr \<Rightarrow> 'v vector_store \<Rightarrow> nat \<times> 'v vector_store" where
  "delete_by_document d s =
     (length (filter (\<lambda>e. document_id (snd e) = d) (entries s)),
      s\<lparr>entries := filter (\<lambda>e. document_id (snd e) \<noteq> d) (entries s)\<rparr>)"

text \<open>
  Modelled from the spec: \<open>VectorStore.clear\<close> (section 4.3), missing from the sources.
  It empties the store unconditionally; the dimension stays.
\<close>

definition clear :: "'v vector_store \<Rightarrow> 'v vector_store" where
  "clear s = s\<lparr>entries := []\<rparr>"

text \<open>
  Modelled from the spec: \<open>VectorStore.stats\<close> (sections 3 and 4.3), missing from the
  sources. The snapshot is a dictionary with the keys \<open>total_documents\<close>, the number
  of chunks, and \<open>dimension\<close>, computed from the store at the call.
\<close>

definition stats :: "'v vector_store \<Rightarrow> (pystr \<rightharpoonup> nat)" where
  "stats s = [lit ''total_documents'' \<mapsto> length (entries s), lit ''dimension'' \<mapsto> dimension s]"

text \<open>
  Modelled from the spec: the ranking of \<open>VectorStore.search\<close> (section 4.3), missing
  from the sources: by descending score, and among equal scores the chunk inserted
  earlier first.
\<close>

fun insert_ranked :: "'a \<times> 's::linorder \<Rightarrow> ('a \<times> 's) list \<Rightarrow> ('a \<times> 's) list" where
  "insert_ranked x [] = [x]"
| "insert_ranked x (y # ys) = (if snd y < snd x then x # y # ys else y # insert_ranked x ys)"

definition ranked :: "('a \<times> 's::linorder) list \<Rightarrow> ('a \<times> 's) list" where
  "ranked xs = foldl (\<lambda>acc x. insert_ranked x acc) [] xs"

text \<open>
  Modelled from the spec: \<open>VectorStore.search\<close> (section 4.3), missing from the
  sources. \<open>k \<le> 0\<close> fails with \<open>InvalidArgument\<close>; a \<open>k\<close> above the size of the store
  returns every entry, ranked.
\<close>

definition search ::
  "('v \<Rightarrow> 'v \<Rightarrow> 's::linorder) \<Rightarrow> 'v \<Rightarrow> int \<Rightarrow> 'v vector_store
     \<Rightarrow> core_error + ('v chunk \<times> 's) list" where
  "search sim query_vector k s =
     (if k \<le> 0 then Inl InvalidArgument
      else Inr (take (nat k)
                  (ranked (map (\<lambda>e. (snd e, sim query_vector (vector (snd e)))) (entries s)))))"

text \<open>
  Modelled from the spec: what the missing core is configured with and calls. The
  chunker and the embedder (sections 4.1 and 4.2) and the generative model (section 4.5)
  can fail; the similarity metric, the value of \<open>k\<close>, the relevance threshold, the bound
  on the context and the built-in sample documents are constants the specification
  leaves open.
\<close>

record ('v, 's) core_env =
  chunker :: "pystr \<Rightarrow> core_error + pystr list"
  embed :: "pystr \<Rightarrow> core_error + 'v"
  similarity :: "'v \<Rightarrow> 'v \<Rightarrow> 's"
  top_k :: int
  min_relevance :: 's
  max_context :: nat
  generate :: "pystr \<Rightarrow> pystr list \<Rightarrow> core_error + pystr"
  samples :: "(pystr \<times> pystr) list"

text \<open>
  Modelled from the spec: \<open>embed_batch\<close> (section 4.2), missing from the sources: the
  embedder mapped over the passages, failing as a whole when one passage fails.
\<close>

fun embed_batch :: "(pystr \<Rightarrow> core_error + 'v) \<Rightarrow> pystr list \<Rightarrow> core_error + 'v list" where
  "embed_batch f [] = Inr []"
| "embed_batch f (p # ps) =
     (case f p of
        Inl e \<Rightarrow> Inl e
      | Inr v \<Rightarrow> (case embed_batch f ps of Inl e \<Rightarrow> Inl e | Inr vs \<Rightarrow> Inr (v # vs)))"

text \<open>
  Modelled from the spec: \<open>process_document\<close> (section 4.4), missing from the sources.
  Empty or whitespace text is rejected; a failure of the chunker or of the embedder gives
  the failure result and leaves the store as it was; on success the chunks of the id are
  replaced by the new ones.
\<close>

definition process_document ::
  "('v, 's) core_env \<Rightarrow> pystr \<Rightarrow> pystr \<Rightarrow> 'v vector_store \<Rightarrow> bool \<times> 'v vector_store" where
  "process_document env text doc_id s =
     (if \<forall>c \<in> set text. py_isspace c then (False, s)
      else
        (case chunker env text of
           Inl e \<Rightarrow> (False, s)
         | Inr passages \<Rightarrow>
             (case embed_batch (embed env) passages of
                Inl e \<Rightarrow> (False, s)
              | Inr vectors \<Rightarrow>
                  (True,
                   insert_chunks
                     (map (\<lambda>(i, p, v). \<lparr>document_id = doc_id, chunk_index = i, passage = p, vector = v\<rparr>)
                        (zip [0 ..< length passages] (zip passages vectors)))
                     (snd (delete_by_document doc_id s))))))"

text \<open>
  Modelled from the spec: \<open>add_sample_documents\<close> (section 4.4), missing from the
  sources: each built-in document is ingested through \<open>process_document\<close>.
\<close>

definition add_sample_documents :: "('v, 's) core_env \<Rightarrow> 'v vector_store \<Rightarrow> 'v vector_store" where
  "add_sample_documents env s =
     foldl (\<lambda>s sample. snd (process_document env (snd sample) (fst sample) s)) s (samples env)"

text \<open>
  Modelled from the spec: \<open>clear_all_documents\<close> (section 4.4), missing from the
  sources: it delegates to \<open>VectorStore.clear\<close>.
\<close>

definition clear_all_documents :: "'v vector_store \<Rightarrow> 'v vector_store" where
  "clear_all_documents s = clear s"

text \<open>
  Modelled from the spec: \<open>get_vector_store_stats\<close> (sections 4.4 and 6), missing from
  the sources: the snapshot of the store.
\<close>

definition get_vector_store_stats :: "'v vector_store \<Rightarrow> (pystr \<rightharpoonup> nat)" where
  "get_vector_store_stats s = stats s"

text \<open>
  Modelled from the spec: the two fixed answers that section 4.5 names and the message
  for an empty question, whose wording the missing query engine decides.
\<close>

definition empty_question_answer :: pystr where
  "empty_question_answer = lit ''invalid argument: the question is empty''"

definition unable_answer :: pystr where
  "unable_answer = lit ''unable to process question''"

definition no_information_answer :: pystr where
  "no_information_answer = lit ''no relevant information found''"

text \<open>
  Modelled from the spec: the indicator that comes with an answer of the missing query
  engine (section 4.5): success, a degraded answer, or the explicit signal that template
  mode ran in place of the advanced mode that was asked for.
\<close>

datatype indicator = Success | Degraded | FellBack

text \<open>
  Modelled from the spec: template mode of the missing answer generator (section 4.5):
  the retrieved passages behind the words of the specification's example, with no model
  involved.
\<close>

definition template_answer :: "pystr list \<Rightarrow> pystr" where
  "template_answer passages = lit ''Based on the documents: '' @ py_join (lit '' '') passages"

text \<open>
  Modelled from the spec: the bound on the context of advanced mode (section 4.5),
  missing from the sources: the lowest-ranked passages are dropped first and no passage
  is cut, so what is kept is the longest run of the best passages that fits.
\<close>

fun fit_context :: "nat \<Rightarrow> pystr list \<Rightarrow> pystr list" where
  "fit_context room [] = []"
| "fit_context room (p # ps) =
     (if length p \<le> room then p # fit_context (room - length p) ps else [])"

text \<open>
  Modelled from the spec: \<open>ask_question\<close> (section 4.5, steps 1 to 5), missing from
  the sources. The result is the answer with its indicator; \<open>Inl\<close> is an exception
  that leaves the function. Each step handles the failures that the specification names
  for it; an error of \<open>VectorStore.search\<close>, for which no step names a handler, is
  passed on.
\<close>

definition ask_question ::
  "('v, 's::linorder) core_env \<Rightarrow> 'v vector_store \<Rightarrow> pystr \<Rightarrow> bool
     \<Rightarrow> core_error + pystr \<times> indicator" where
  "ask_question env s question use_advanced =
     (if \<forall>c \<in> set question. py_isspace c then Inr (empty_question_answer, Degraded)
      else
        (case embed env question of
           Inl e \<Rightarrow> Inr (unable_answer, Degraded)
         | Inr query_vector \<Rightarrow>
             (case search (similarity env) query_vector (top_k env) s of
                Inl e \<Rightarrow> Inl e
              | Inr hits \<Rightarrow>
                  if \<forall>h \<in> set hits. snd h < min_relevance env
                  then Inr (no_information_answer, Degraded)
                  else
                    let passages = map (\<lambda>h. passage (fst h)) hits
                    in if use_advanced
                       then (case generate env question (fit_context (max_context env) passages) of
                               Inl e \<Rightarrow> Inr (template_answer passages, FellBack)
                             | Inr answer \<Rightarrow> Inr (answer, Success))
                       else Inr (template_answer passages, Success))))"

section \<open>The callers of the core in the sources\<close>

text \<open>\<open>d[key]\<close> on a dictionary: the value, or \<open>KeyError\<close>.\<close>

definition dict_get :: "(pystr \<rightharpoonup> 'a) \<Rightarrow> pystr \<Rightarrow> exn + 'a" where
  "dict_get d key = (case d key of None \<Rightarrow> Inl (PyErr ''KeyError'' key) | Some v \<Rightarrow> Inr v)"

text \<open>
  frontend.py, lines 208 to 210, given the snapshot that
  \<open>get_vector_store_stats()\<close> returned: the metrics shown, and the exception that
  stopped the block, if any.
\<close>

definition show_stats :: "(pystr \<rightharpoonup> nat) \<Rightarrow> exn option \<times> (pystr \<times> nat) list" where
  "show_stats snapshot =
     (case dict_get snapshot (lit ''total_documents'') of
        Inl e \<Rightarrow> (Some e, [])
      | Inr n_chunks \<Rightarrow>
          (case dict_get snapshot (lit ''dimension'') of
             Inl e \<Rightarrow> (Some e, [(lit ''Total Documents'', n_chunks)])
           | Inr width \<Rightarrow>
               (None, [(lit ''Total Documents'', n_chunks), (lit ''Vector Dimension'', width)])))"

text \<open>
  reprocess_docs.py, lines 3 to 8, run on the processor that \<open>DocumentProcessor()\<close>
  makes, whose store may hold chunks already: the line printed, or the exception.
\<close>

definition reprocess_docs :: "('v, 's) core_env \<Rightarrow> 'v vector_store \<Rightarrow> exn + pystr" where
  "reprocess_docs env processor =
     (let processor = clear_all_documents processor;
          processor = add_sample_documents env processor;
          snapshot = get_vector_store_stats processor
      in (case dict_get snapshot (lit ''total_documents'') of
            Inl e \<Rightarrow> Inl e
          | Inr n_chunks \<Rightarrow>
              Inr ([9989] @ lit '' Success! Processed '' @ py_str_nat n_chunks @ lit '' document chunks'')))"

text \<open>A stand-in for the models, and a store that holds two chunks of an old document.\<close>

definition demo_core :: "(nat, int) core_env" where
  "demo_core =
     \<lparr>chunker = (\<lambda>t. Inr [t]),
      embed = (\<lambda>t. if 0 \<in> set t then Inl EmbeddingUnavailable else Inr (length t mod 2)),
      similarity = (\<lambda>a b. if a = b then 1 else 0),
      top_k = 3,
      min_relevance = 1,
      max_context = 1000,
      generate = (\<lambda>q ps. Inl ModelTimeout),
      samples = [(lit ''hr-policy'', lit ''Employees receive 15 vacation days per year.''),
                 (lit ''it'', lit ''Contact the help desk for IT issues.'')]\<rparr>"

definition demo_store :: "nat vector_store" where
  "demo_store =
     \<lparr>entries = [(0, \<lparr>document_id = lit ''old'', chunk_index = 0, passage = lit ''stale'', vector = 1\<rparr>),
                 (1, \<lparr>document_id = lit ''old'', chunk_index = 1, passage = lit ''staler'', vector = 0\<rparr>)],
      next_key = 2,
      dimension = 1\<rparr>"

section \<open>Facts about strings, paths and files\<close>

lemma py_strip_empty_iff: "py_strip s = [] \<longleftrightarrow> (\<forall>c \<in> set s. py_isspace c)"
proof
  assume "py_strip s = []"
  then have all: "\<forall>x \<in> set (dropWhile py_isspace s). py_isspace x"
    by (simp add: py_strip_def)
  have "dropWhile py_isspace s = []"
  proof (rule ccontr)
    assume ne: "dropWhile py_isspace s \<noteq> []"
    then have "\<not> py_isspace (hd (dropWhile py_isspace s))" by (rule hd_dropWhile)
    moreover have "hd (dropWhile py_isspace s) \<in> set (dropWhile py_isspace s)"
      using ne by (rule hd_in_set)
    ultimately show False using all by blast
  qed
  then show "\<forall>c \<in> set s. py_isspace c" by simp
next
  assume "\<forall>c \<in> set s. py_isspace c"
  then have "dropWhile py_isspace s = []" by simp
  then have "py_strip s = rev (dropWhile py_isspace (rev []))" by (simp only: py_strip_def)
  then show "py_strip s = []" by simp
qed

lemma rfind_bounds: "-1 \<le> rfind c xs \<and> rfind c xs < int (length xs)"
  by (induction xs) (auto simp: Let_def)

lemma rfind_nth: "0 \<le> rfind c xs \<Longrightarrow> xs ! nat (rfind c xs) = c"
proof (induction xs)
  case Nil
  then show ?case by simp
next
  case (Cons x xs)
  then show ?case
    by (auto simp: Let_def nat_add_distrib split: if_splits)
qed

lemma rfind_last: "0 \<le> rfind c xs \<Longrightarrow> c \<notin> set (drop (Suc (nat (rfind c xs))) xs)"
proof (induction xs)
  case Nil
  then show ?case by simp
next
  case (Cons x xs)
  show ?case
  proof (cases "0 \<le> rfind c xs")
    case True
    with Cons show ?thesis by (simp add: Let_def nat_add_distrib)
  next
    case False
    have "rfind c xs = -1" using False rfind_bounds [of c xs] by linarith
    moreover have "c \<notin> set xs"
      using False by (induction xs) (auto simp: Let_def split: if_splits)
    ultimately show ?thesis using Cons.prems by (auto simp: Let_def split: if_splits)
  qed
qed

lemma stem_suffix: "stem s @ suffix s = path_name s"
  by (simp add: stem_def suffix_def Let_def)

lemma suffix_shape:
  assumes "suffix s \<noteq> []"
  shows "\<exists>ext. suffix s = 46 # ext \<and> ext \<noteq> [] \<and> 46 \<notin> set ext"
proof -
  let ?n = "path_name s"
  let ?i = "rfind 46 ?n"
  from assms have i: "0 < ?i" "?i < int (length ?n) - 1" and sfx: "suffix s = drop (nat ?i) ?n"
    by (auto simp: suffix_def Let_def split: if_splits)
  have lt: "nat ?i < length ?n" using i by linarith
  have "drop (nat ?i) ?n = ?n ! nat ?i # drop (Suc (nat ?i)) ?n"
    using lt by (simp add: Cons_nth_drop_Suc)
  moreover have "?n ! nat ?i = 46" using i rfind_nth [of 46 ?n] by simp
  moreover have "46 \<notin> set (drop (Suc (nat ?i)) ?n)" using i rfind_last [of 46 ?n] by simp
  moreover have "drop (Suc (nat ?i)) ?n \<noteq> []" using i by simp
  ultimately show ?thesis using sfx by simp
qed

lemma split_on_no_sep: "d \<notin> set s \<Longrightarrow> split_on d s = [s]"
  by (induction s) auto

lemma path_name_plain: "47 \<notin> set s \<Longrightarrow> s \<noteq> lit ''.'' \<Longrightarrow> path_name s = s"
  by (auto simp: path_name_def path_parts_def split_on_no_sep)

lemma write_text_ok:
  assumes "write_text path text files = (None, files')"
  shows "files' = files\<lparr>nodes := (nodes files)(path \<mapsto> File text)\<rparr>"
  using assms
  by (auto simp: write_text_def split: if_splits option.splits node.splits)

lemma write_text_keeps:
  assumes "write_text path text files = (r, files')" and "q \<noteq> path"
  shows "nodes files' q = nodes files q"
  using assms
  by (auto simp: write_text_def split: if_splits option.splits node.splits)

lemma makedirs_ok:
  assumes "makedirs path files = Inr files'"
  shows "nodes files' path = Some Dir \<and> (\<forall>q. q \<noteq> path \<longrightarrow> nodes files' q = nodes files q)"
  using assms
  by (auto simp: makedirs_def split: option.splits node.splits)

lemma save_and_process_blank:
  assumes "tc = None \<or> (\<exists>t. tc = Some t \<and> (\<forall>c \<in> set t. py_isspace c))"
  shows "save_and_process L P up tc w =
           (Inr False, st_error (lit ''Could not extract text from the file or file is empty'') w)"
  using assms by (auto simp: save_and_process_def py_strip_empty_iff)

lemma save_and_process_cases:
  assumes "save_and_process L P up tc w = (r, w')"
  shows "(r \<noteq> Inr True \<and> calls w' = calls w \<and> dp w' = dp w
            \<and> (\<forall>q. q \<noteq> processed_path up \<longrightarrow> nodes (fs w') q = nodes (fs w) q))
       \<or> (\<exists>text outcome. tc = Some text \<and> (\<exists>c \<in> set text. \<not> py_isspace c)
            \<and> fs w' = (fs w)\<lparr>nodes := (nodes (fs w))(processed_path up \<mapsto> File text)\<rparr>
            \<and> P (dp w) (fs w') (processed_path up) (stem (name up)) = (outcome, dp w')
            \<and> calls w' = calls w @ [Call ''process_text_file'' [processed_path up, stem (name up)]]
            \<and> (r = Inr True \<longleftrightarrow> outcome = Inr True))"
proof (cases "tc = None \<or> (\<exists>t. tc = Some t \<and> (\<forall>c \<in> set t. py_isspace c))")
  case True
  from save_and_process_blank [OF True, of L P up w] assms show ?thesis
    by (auto simp: st_error_def)
next
  case False
  then obtain body where tc: "tc = Some body" and ns: "\<exists>c \<in> set body. \<not> py_isspace c"
    by auto
  have ne: "body \<noteq> []" "py_strip body \<noteq> []" using ns by (auto simp: py_strip_empty_iff)
  obtain e files where wt: "write_text (processed_path up) body (fs w) = (e, files)"
    by (cases "write_text (processed_path up) body (fs w)")
  show ?thesis
  proof (cases e)
    case (Some ex)
    with assms tc ne wt have "r = Inl ex" "w' = w\<lparr>fs := files\<rparr>"
      by (auto simp: save_and_process_def processed_path_def Let_def)
    then show ?thesis using write_text_keeps [OF wt] by auto
  next
    case None
    obtain outcome dp' where p: "P (dp w) files (processed_path up) (stem (name up)) = (outcome, dp')"
      by (cases "P (dp w) files (processed_path up) (stem (name up))")
    have files: "files = (fs w)\<lparr>nodes := (nodes (fs w))(processed_path up \<mapsto> File body)\<rparr>"
      using wt None write_text_ok by blast
    from assms tc ne wt None p
    have "fs w' = files \<and> dp w' = dp'
        \<and> calls w' = calls w @ [Call ''process_text_file'' [processed_path up, stem (name up)]]
        \<and> (r = Inr True \<longleftrightarrow> outcome = Inr True)"
      by (auto simp: save_and_process_def processed_path_def Let_def st_error_def st_info_def
            st_success_def split: sum.splits if_splits)
    with tc ns files p show ?thesis by auto
  qed
qed

section \<open>What processing an upload can do\<close>

lemma processed_path_not_uploads: "processed_path up \<noteq> lit ''uploads''"
proof
  assume "processed_path up = lit ''uploads''"
  then have "length (processed_path up) = length (lit ''uploads'')" by simp
  then show False by (simp add: processed_path_def)
qed

lemma process_uploaded_file_cases:
  assumes "process_uploaded_file L P up w = (r, w')"
  shows "(\<not> r \<and> calls w' = calls w \<and> dp w' = dp w
            \<and> (\<forall>q. q \<noteq> processed_path up \<and> q \<noteq> lit ''uploads''
                   \<longrightarrow> nodes (fs w') q = nodes (fs w) q))
       \<or> (\<exists>t outcome. fst (extract_by_type L up) = Next (Some t) \<and> (\<exists>c \<in> set t. \<not> py_isspace c)
            \<and> nodes (fs w') (processed_path up) = Some (File t)
            \<and> nodes (fs w') (lit ''uploads'') = Some Dir
            \<and> P (dp w) (fs w') (processed_path up) (stem (name up)) = (outcome, dp w')
            \<and> calls w' = calls w @ [Call ''process_text_file'' [processed_path up, stem (name up)]]
            \<and> (r \<longleftrightarrow> outcome = Inr True))"
proof (cases "makedirs (lit ''uploads'') (fs w)")
  case (Inl e)
  with assms show ?thesis
    by (auto simp: process_uploaded_file_def process_body_def st_error_def)
next
  case (Inr fs1)
  note mk = makedirs_ok [OF Inr]
  obtain flow shown where ex: "extract_by_type L up = (flow, shown)"
    by (cases "extract_by_type L up")
  let ?w1 = "w\<lparr>fs := fs1, ui := ui w @ shown\<rparr>"
  show ?thesis
  proof (cases flow)
    case (Raise e)
    with assms Inr ex mk show ?thesis
      by (auto simp: process_uploaded_file_def process_body_def st_error_def)
  next
    case (Return b)
    have "b = False" using ex Return
      by (auto simp: extract_by_type_def Let_def split: if_splits sum.splits prod.splits)
    with assms Inr ex Return mk show ?thesis
      by (auto simp: process_uploaded_file_def process_body_def st_error_def)
  next
    case (Next tc)
    obtain r0 w0 where sp: "save_and_process L P up tc ?w1 = (r0, w0)"
      by (cases "save_and_process L P up tc ?w1")
    have r: "r = (r0 = Inr True)" and w': "calls w' = calls w0" "dp w' = dp w0" "fs w' = fs w0"
      using assms Inr ex Next sp
      by (auto simp: process_uploaded_file_def process_body_def st_error_def split: sum.splits)
    from save_and_process_cases [OF sp] show ?thesis
    proof
      assume "r0 \<noteq> Inr True \<and> calls w0 = calls ?w1 \<and> dp w0 = dp ?w1
            \<and> (\<forall>q. q \<noteq> processed_path up \<longrightarrow> nodes (fs w0) q = nodes (fs ?w1) q)"
      with r w' mk show ?thesis by auto
    next
      assume "\<exists>t outcome. tc = Some t \<and> (\<exists>c \<in> set t. \<not> py_isspace c)
            \<and> fs w0 = (fs ?w1)\<lparr>nodes := (nodes (fs ?w1))(processed_path up \<mapsto> File t)\<rparr>
            \<and> P (dp ?w1) (fs w0) (processed_path up) (stem (name up)) = (outcome, dp w0)
            \<and> calls w0 = calls ?w1 @ [Call ''process_text_file'' [processed_path up, stem (name up)]]
            \<and> (r0 = Inr True \<longleftrightarrow> outcome = Inr True)"
      then obtain t outcome where h: "tc = Some t" "\<exists>c \<in> set t. \<not> py_isspace c"
          "fs w0 = (fs ?w1)\<lparr>nodes := (nodes (fs ?w1))(processed_path up \<mapsto> File t)\<rparr>"
          "P (dp ?w1) (fs w0) (processed_path up) (stem (name up)) = (outcome, dp w0)"
          "calls w0 = calls ?w1 @ [Call ''process_text_file'' [processed_path up, stem (name up)]]"
          "r0 = Inr True \<longleftrightarrow> outcome = Inr True"
        by blast
      have "nodes (fs w') (lit ''uploads'') = Some Dir"
        using h(3) w' mk processed_path_not_uploads [of up] by auto
      moreover have "nodes (fs w') (processed_path up) = Some (File t)"
        using h(3) w' by simp
      moreover have "fst (extract_by_type L up) = Next (Some t)"
        using ex Next h(1) by simp
      ultimately show ?thesis using h r w' by auto
    qed
  qed
qed

lemmas path_defs = suffix_def stem_def path_name_def path_parts_def

lemmas front_defs = process_uploaded_file_def process_body_def extract_by_type_def
  save_and_process_def extract_text_from_docx_def extract_text_from_pdf_def
  extract_text_from_csv_def makedirs_def write_text_def dirname_def processed_path_def
  py_lower_def ascii_lower_def py_strip_def py_isspace_def is_surrogate_def
  st_info_def st_success_def st_error_def Let_def

lemmas demo_defs = demo_libs_def demo_processor_def demo_world_def demo_frame_def

section \<open>Errors of the libraries\<close>

lemma pdf_pages_text_error: "\<exists>p \<in> set pages. isl p \<Longrightarrow> isl (pdf_pages_text acc pages)"
  by (induction pages arbitrary: acc) (auto split: sum.splits)

lemma docx_error: "isl (docx_Document L (data file)) \<Longrightarrow> fst (extract_text_from_docx L file) = None"
  by (auto simp: extract_text_from_docx_def split: sum.splits)

lemma pdf_error:
  "(case PdfReader L (data file) of Inl e \<Rightarrow> True | Inr pages \<Rightarrow> \<exists>p \<in> set pages. isl p)
     \<Longrightarrow> fst (extract_text_from_pdf L file) = None"
  using pdf_pages_text_error [of _ "[]"]
  by (fastforce simp: extract_text_from_pdf_def split: sum.splits)

lemma csv_error: "isl (read_csv L (data file)) \<Longrightarrow> fst (extract_text_from_csv L file) = None"
  by (auto simp: extract_text_from_csv_def split: sum.splits)

lemma library_error_no_text:
  assumes "library_error L file"
  shows "fst (extract_by_type L file) = Next None"
proof -
  let ?ext = "py_lower (lower_unicode L) (suffix (name file))"
  from assms consider
      (docx) "?ext = lit ''.docx''" "isl (docx_Document L (data file))"
    | (pdf) "?ext = lit ''.pdf''"
        "case PdfReader L (data file) of Inl e \<Rightarrow> True | Inr pages \<Rightarrow> \<exists>p \<in> set pages. isl p"
    | (csv) "?ext = lit ''.csv''" "isl (read_csv L (data file))"
    by (auto simp: library_error_def Let_def)
  then show ?thesis
  proof cases
    case docx
    with docx_error [OF docx(2)] show ?thesis
      by (auto simp: extract_by_type_def Let_def split: prod.splits)
  next
    case pdf
    with pdf_error [OF pdf(2)] show ?thesis
      by (auto simp: extract_by_type_def Let_def split: prod.splits)
  next
    case csv
    with csv_error [OF csv(2)] show ?thesis
      by (auto simp: extract_by_type_def Let_def split: prod.splits)
  qed
qed

lemma py_lower_nonempty:
  assumes "py_lower f s \<in> supported"
  shows "s \<noteq> []"
  using assms by (auto simp: py_lower_def supported_def)

lemma ingest_extension:
  assumes "calls (snd (process_uploaded_file L P up w)) \<noteq> calls w"
  shows "py_lower (lower_unicode L) (suffix (name up)) \<in> supported"
proof -
  obtain r w' where run: "process_uploaded_file L P up w = (r, w')"
    by (cases "process_uploaded_file L P up w")
  with assms process_uploaded_file_cases [OF run]
  obtain t where "fst (extract_by_type L up) = Next (Some t)" by auto
  then show ?thesis
    by (auto simp: extract_by_type_def supported_def Let_def split: if_splits sum.splits prod.splits)
qed

lemma unsupported_extract:
  assumes "py_lower (lower_unicode L) (suffix (name up)) \<notin> supported"
  shows "extract_by_type L up =
     (Return False,
      [St_error (lit ''Unsupported file type: '' @ py_lower (lower_unicode L) (suffix (name up)))])"
  using assms by (simp add: extract_by_type_def supported_def Let_def)

lemma save_and_process_handoff:
  assumes "\<exists>c \<in> set t. \<not> py_isspace c"
    and "fst (write_text (processed_path up) t (fs w)) = None"
    and "save_and_process L P up (Some t) w = (r, w')"
  shows "calls w' = calls w @ [Call ''process_text_file'' [processed_path up, stem (name up)]]
       \<and> nodes (fs w') (processed_path up) = Some (File t)
       \<and> (r = Inr True) = (fst (P (dp w) (fs w') (processed_path up) (stem (name up))) = Inr True)"
proof -
  from save_and_process_cases [OF assms(3)] show ?thesis
  proof
    assume quiet: "r \<noteq> Inr True \<and> calls w' = calls w \<and> dp w' = dp w
        \<and> (\<forall>q. q \<noteq> processed_path up \<longrightarrow> nodes (fs w') q = nodes (fs w) q)"
    have ne: "t \<noteq> []" "py_strip t \<noteq> []" using assms(1) by (auto simp: py_strip_empty_iff)
    obtain files where wt: "write_text (processed_path up) t (fs w) = (None, files)"
      using assms(2) by (cases "write_text (processed_path up) t (fs w)") auto
    obtain outcome dp' where p: "P (dp w) files (processed_path up) (stem (name up)) = (outcome, dp')"
      by (cases "P (dp w) files (processed_path up) (stem (name up))")
    from assms(3) ne wt p
    have "calls w' = calls w @ [Call ''process_text_file'' [processed_path up, stem (name up)]]"
      by (auto simp: save_and_process_def processed_path_def Let_def st_error_def st_info_def
            st_success_def split: sum.splits if_splits)
    with quiet show ?thesis by simp
  next
    assume "\<exists>body outcome. Some t = Some body \<and> (\<exists>c \<in> set body. \<not> py_isspace c)
        \<and> fs w' = (fs w)\<lparr>nodes := (nodes (fs w))(processed_path up \<mapsto> File body)\<rparr>
        \<and> P (dp w) (fs w') (processed_path up) (stem (name up)) = (outcome, dp w')
        \<and> calls w' = calls w @ [Call ''process_text_file'' [processed_path up, stem (name up)]]
        \<and> (r = Inr True \<longleftrightarrow> outcome = Inr True)"
    then show ?thesis by auto
  qed
qed

section \<open>Facts about the core\<close>

lemma insert_chunks_entries:
  assumes "e \<in> set (entries (insert_chunks cs s))"
  shows "e \<in> set (entries s) \<or> (next_key s \<le> fst e \<and> snd e \<in> set cs)"
proof (cases "e \<in> set (entries s)")
  case True
  then show ?thesis by simp
next
  case False
  with assms have "(fst e, snd e) \<in> set (zip [next_key s ..< next_key s + length cs] cs)"
    by (simp add: insert_chunks_def)
  then have "fst e \<in> set [next_key s ..< next_key s + length cs]" and "snd e \<in> set cs"
    by (rule set_zip_leftD, rule set_zip_rightD)
  then show ?thesis by simp
qed

lemma delete_by_document_entries:
  "set (entries (snd (delete_by_document d s))) \<subseteq> set (entries s)"
  "next_key (snd (delete_by_document d s)) = next_key s"
  by (auto simp: delete_by_document_def)

lemma made_chunks_id:
  "c \<in> set (map (\<lambda>(i, p, v). \<lparr>document_id = d, chunk_index = i, passage = p, vector = v\<rparr>) xs)
     \<Longrightarrow> document_id c = d"
  by auto

lemma process_document_entries:
  assumes "e \<in> set (entries (snd (process_document env body d s)))"
  shows "e \<in> set (entries s) \<or> (next_key s \<le> fst e \<and> document_id (snd e) = d)"
proof (cases "fst (process_document env body d s)")
  case False
  then have "snd (process_document env body d s) = s"
    by (auto simp: process_document_def split: if_splits sum.splits)
  with assms show ?thesis by simp
next
  case True
  then have "\<exists>cs :: 'a chunk list.
      snd (process_document env body d s) = insert_chunks cs (snd (delete_by_document d s))
      \<and> (\<forall>c \<in> set cs. document_id c = d)"
    unfolding process_document_def
    by (auto split: if_splits sum.splits dest: made_chunks_id simp del: set_map)
  then obtain cs :: "'a chunk list" where
    run: "snd (process_document env body d s) = insert_chunks cs (snd (delete_by_document d s))"
    and cs: "\<forall>c \<in> set cs. document_id c = d"
    by blast
  from assms run have "e \<in> set (entries (insert_chunks cs (snd (delete_by_document d s))))"
    by simp
  from insert_chunks_entries [OF this] cs delete_by_document_entries [of d s]
  show ?thesis by auto
qed

lemma process_document_next_key:
  "next_key s \<le> next_key (snd (process_document env body d s))"
  by (simp add: process_document_def insert_chunks_def delete_by_document_def split: sum.splits)

lemma ingest_all_entries:
  assumes "e \<in> set (entries (foldl (\<lambda>s sample. snd (process_document env (snd sample) (fst sample) s)) s xs))"
  shows "e \<in> set (entries s) \<or> (next_key s \<le> fst e \<and> document_id (snd e) \<in> fst ` set xs)"
  using assms
proof (induction xs arbitrary: s)
  case Nil
  then show ?case by simp
next
  case (Cons x xs)
  let ?s1 = "snd (process_document env (snd x) (fst x) s)"
  from Cons.prems have "e \<in> set (entries (foldl (\<lambda>s sample. snd (process_document env (snd sample) (fst sample) s)) ?s1 xs))"
    by simp
  from Cons.IH [OF this]
  have "e \<in> set (entries ?s1) \<or> (next_key ?s1 \<le> fst e \<and> document_id (snd e) \<in> fst ` set xs)" .
  moreover have "next_key s \<le> next_key ?s1" by (rule process_document_next_key)
  moreover have "e \<in> set (entries ?s1) \<Longrightarrow>
      e \<in> set (entries s) \<or> (next_key s \<le> fst e \<and> document_id (snd e) = fst x)"
    by (rule process_document_entries)
  ultimately show ?case by auto
qed

lemma stats_total: "stats s (lit ''total_documents'') = Some (length (entries s))"
  by (simp add: stats_def)

lemma stats_dimension: "stats s (lit ''dimension'') = Some (dimension s)"
  by (simp add: stats_def)

lemma stats_dom: "dom (stats s) = {lit ''total_documents'', lit ''dimension''}"
  by (auto simp: stats_def)

lemma dict_get_total:
  "dict_get (get_vector_store_stats s) (lit ''total_documents'') = Inr (length (entries s))"
  by (simp add: dict_get_def get_vector_store_stats_def stats_def)

lemma dict_get_dimension:
  "dict_get (get_vector_store_stats s) (lit ''dimension'') = Inr (dimension s)"
  by (simp add: dict_get_def get_vector_store_stats_def stats_def)

lemma reprocess_docs_line:
  "reprocess_docs env s =
     Inr ([9989] @ lit '' Success! Processed ''
          @ py_str_nat (length (entries (add_sample_documents env (clear_all_documents s))))
          @ lit '' document chunks'')"
  by (simp only: reprocess_docs_def Let_def dict_get_total sum.case)

lemmas core_defs =
  ask_question_def search_def ranked_def template_answer_def
  empty_question_answer_def unable_answer_def no_information_answer_def
  process_document_def insert_chunks_def delete_by_document_def clear_def
  clear_all_documents_def add_sample_documents_def get_vector_store_stats_def stats_def
  dict_get_def show_stats_def reprocess_docs_def Let_def py_isspace_def

lemmas demo_core_defs = demo_core_def demo_store_def

text \<open>
  C1, as stated: every upload is ingested through the call
  \<open>process_document(text, id)\<close>. The front end makes a different call. For the upload
  \<open>a.txt\<close> holding \<open>hi\<close> the text \<open>hi\<close> is extracted and the upload is ingested,
  and the one call made is \<open>process_text_file('uploads/a.txt_processed.txt', 'a')\<close>:
  the method is another one and its first argument is a path, not the text.
\<close>

theorem upload_calls_process_document_counterexample:
  "fst (extract_by_type demo_libs \<lparr>name = lit ''a.txt'', data = [104, 105]\<rparr>) = Next (Some (lit ''hi''))
   \<and> fst (process_uploaded_file demo_libs demo_processor
           \<lparr>name = lit ''a.txt'', data = [104, 105]\<rparr> demo_world) = True
   \<and> calls (snd (process_uploaded_file demo_libs demo_processor
           \<lparr>name = lit ''a.txt'', data = [104, 105]\<rparr> demo_world))
       = [Call ''process_text_file'' [lit ''uploads/a.txt_processed.txt'', lit ''a'']]
   \<and> calls (snd (process_uploaded_file demo_libs demo_processor
           \<lparr>name = lit ''a.txt'', data = [104, 105]\<rparr> demo_world))
       \<noteq> [Call ''process_document'' [lit ''hi'', lit ''a'']]"
  by (simp add: front_defs path_defs demo_defs)

text \<open>
  C1, amended. After text extraction the front end hands the core the path of a saved
  copy of the text, not the text. When the directory \<open>uploads\<close> can be made, the
  extracted text is not \<open>None\<close> and has a character that is not whitespace, and the
  text can be written to \<open>uploads/<name>_processed.txt\<close>, processing the upload makes
  exactly one call on the document processor,
  \<open>process_text_file(file_path, document_id)\<close>, with that path, where the file then
  holds the extracted text, and with the stem of the name; it returns \<open>True\<close> exactly
  when that call returns \<open>True\<close>. The call is made in no other case: without it the
  result is \<open>False\<close> and the processor keeps its state.
\<close>

theorem upload_hands_saved_file_to_processor:
  "(\<forall>fs1 t. makedirs (lit ''uploads'') (fs w) = Inr fs1
        \<and> fst (extract_by_type L up) = Next (Some t)
        \<and> (\<exists>c \<in> set t. \<not> py_isspace c)
        \<and> fst (write_text (lit ''uploads/'' @ name up @ lit ''_processed.txt'') t fs1) = None
      \<longrightarrow> calls (snd (process_uploaded_file L P up w))
            = calls w @ [Call ''process_text_file''
                           [lit ''uploads/'' @ name up @ lit ''_processed.txt'', stem (name up)]]
        \<and> nodes (fs (snd (process_uploaded_file L P up w)))
             (lit ''uploads/'' @ name up @ lit ''_processed.txt'') = Some (File t)
        \<and> fst (process_uploaded_file L P up w)
            = (fst (P (dp w) (fs (snd (process_uploaded_file L P up w)))
                      (lit ''uploads/'' @ name up @ lit ''_processed.txt'') (stem (name up)))
               = Inr True))
   \<and> (calls (snd (process_uploaded_file L P up w)) \<noteq> calls w
      \<longrightarrow> (\<exists>fs1 t. makedirs (lit ''uploads'') (fs w) = Inr fs1
             \<and> fst (extract_by_type L up) = Next (Some t)
             \<and> (\<exists>c \<in> set t. \<not> py_isspace c)
             \<and> fst (write_text (lit ''uploads/'' @ name up @ lit ''_processed.txt'') t fs1) = None))
   \<and> (calls (snd (process_uploaded_file L P up w)) = calls w
      \<longrightarrow> \<not> fst (process_uploaded_file L P up w)
        \<and> dp (snd (process_uploaded_file L P up w)) = dp w)"
proof -
  have A: "calls (snd (process_uploaded_file L P up w))
            = calls w @ [Call ''process_text_file''
                           [lit ''uploads/'' @ name up @ lit ''_processed.txt'', stem (name up)]]
        \<and> nodes (fs (snd (process_uploaded_file L P up w)))
             (lit ''uploads/'' @ name up @ lit ''_processed.txt'') = Some (File t)
        \<and> fst (process_uploaded_file L P up w)
            = (fst (P (dp w) (fs (snd (process_uploaded_file L P up w)))
                      (lit ''uploads/'' @ name up @ lit ''_processed.txt'') (stem (name up)))
               = Inr True)"
    if h: "makedirs (lit ''uploads'') (fs w) = Inr fs1
        \<and> fst (extract_by_type L up) = Next (Some t)
        \<and> (\<exists>c \<in> set t. \<not> py_isspace c)
        \<and> fst (write_text (lit ''uploads/'' @ name up @ lit ''_processed.txt'') t fs1) = None"
    for fs1 t
  proof -
  obtain shown where ex: "extract_by_type L up = (Next (Some t), shown)"
    using h by (cases "extract_by_type L up") auto
  let ?w1 = "w\<lparr>fs := fs1, ui := ui w @ shown\<rparr>"
  obtain r0 w0 where sp: "save_and_process L P up (Some t) ?w1 = (r0, w0)"
    by (cases "save_and_process L P up (Some t) ?w1")
  have wt: "fst (write_text (processed_path up) t (fs ?w1)) = None"
    using h by (simp add: processed_path_def)
  have ns: "\<exists>c \<in> set t. \<not> py_isspace c" using h by simp
  note ho = save_and_process_handoff [OF ns wt sp]
  have run: "fst (process_uploaded_file L P up w) = (r0 = Inr True)"
      "calls (snd (process_uploaded_file L P up w)) = calls w0"
      "fs (snd (process_uploaded_file L P up w)) = fs w0"
    using h ex sp
    by (auto simp: process_uploaded_file_def process_body_def st_error_def split: sum.splits)
  show ?thesis
    using ho run by (simp add: processed_path_def)
  qed
  have B: "\<exists>fs1 t. makedirs (lit ''uploads'') (fs w) = Inr fs1
             \<and> fst (extract_by_type L up) = Next (Some t)
             \<and> (\<exists>c \<in> set t. \<not> py_isspace c)
             \<and> fst (write_text (lit ''uploads/'' @ name up @ lit ''_processed.txt'') t fs1) = None"
    if ne: "calls (snd (process_uploaded_file L P up w)) \<noteq> calls w"
  proof (cases "makedirs (lit ''uploads'') (fs w)")
    case (Inl e)
    with ne show ?thesis
      by (auto simp: process_uploaded_file_def process_body_def st_error_def)
  next
    case (Inr fs1)
    obtain flow shown where ex: "extract_by_type L up = (flow, shown)"
      by (cases "extract_by_type L up")
    let ?w1 = "w\<lparr>fs := fs1, ui := ui w @ shown\<rparr>"
    show ?thesis
    proof (cases flow)
      case (Raise e)
      with ne Inr ex show ?thesis
        by (auto simp: process_uploaded_file_def process_body_def st_error_def)
    next
      case (Return b)
      with ne Inr ex show ?thesis
        by (auto simp: process_uploaded_file_def process_body_def st_error_def)
    next
      case (Next tc)
      obtain r0 w0 where sp: "save_and_process L P up tc ?w1 = (r0, w0)"
        by (cases "save_and_process L P up tc ?w1")
      have c0: "calls w0 \<noteq> calls ?w1"
        using ne Inr ex Next sp
        by (auto simp: process_uploaded_file_def process_body_def st_error_def split: sum.splits)
      have nb: "\<not> (tc = None \<or> (\<exists>t. tc = Some t \<and> (\<forall>c \<in> set t. py_isspace c)))"
      proof
        assume b: "tc = None \<or> (\<exists>t. tc = Some t \<and> (\<forall>c \<in> set t. py_isspace c))"
        from save_and_process_blank [OF b, of L P up ?w1] sp c0 show False
          by (auto simp: st_error_def)
      qed
      then obtain t where t: "tc = Some t" "\<exists>c \<in> set t. \<not> py_isspace c" by auto
      have ne2: "t \<noteq> []" "py_strip t \<noteq> []" using t(2) by (auto simp: py_strip_empty_iff)
      have "fst (write_text (processed_path up) t fs1) = None"
      proof (rule ccontr)
        assume "fst (write_text (processed_path up) t fs1) \<noteq> None"
        then obtain e files where "write_text (processed_path up) t fs1 = (Some e, files)"
          by (cases "write_text (processed_path up) t fs1") auto
        with sp t(1) ne2 have "calls w0 = calls ?w1"
          by (auto simp: save_and_process_def processed_path_def Let_def)
        with c0 show False by simp
      qed
      with Inr ex Next t show ?thesis by (auto simp: processed_path_def)
    qed
  qed
  have C: "\<not> fst (process_uploaded_file L P up w)
        \<and> dp (snd (process_uploaded_file L P up w)) = dp w"
    if eq: "calls (snd (process_uploaded_file L P up w)) = calls w"
  proof -
    obtain r w' where run: "process_uploaded_file L P up w = (r, w')"
      by (cases "process_uploaded_file L P up w")
    from process_uploaded_file_cases [OF run] eq run show ?thesis by auto
  qed
  show ?thesis using A B C by blast
qed

theorem upload_hands_saved_file_to_processor_witness:
  "makedirs (lit ''uploads'') (fs demo_world)
     = Inr \<lparr>nodes = [lit ''uploads'' \<mapsto> Dir], faults = Map.empty\<rparr>
   \<and> fst (extract_by_type demo_libs \<lparr>name = lit ''a.txt'', data = [104, 105]\<rparr>)
       = Next (Some (lit ''hi''))
   \<and> \<not> py_isspace 104
   \<and> fst (write_text (lit ''uploads/a.txt_processed.txt'') (lit ''hi'')
            \<lparr>nodes = [lit ''uploads'' \<mapsto> Dir], faults = Map.empty\<rparr>) = None
   \<and> calls (snd (process_uploaded_file demo_libs demo_processor
          \<lparr>name = lit ''a.txt'', data = [104, 105]\<rparr> demo_world))
       = [Call ''process_text_file'' [lit ''uploads/a.txt_processed.txt'', lit ''a'']]
   \<and> nodes (fs (snd (process_uploaded_file demo_libs demo_processor
          \<lparr>name = lit ''a.txt'', data = [104, 105]\<rparr> demo_world)))
        (lit ''uploads/a.txt_processed.txt'') = Some (File (lit ''hi''))
   \<and> fst (process_uploaded_file demo_libs demo_processor
          \<lparr>name = lit ''a.txt'', data = [104, 105]\<rparr> demo_world)
   \<and> calls (snd (process_uploaded_file demo_libs demo_processor
          \<lparr>name = lit ''blank.txt'', data = [32, 10]\<rparr> demo_world)) = calls demo_world
   \<and> \<not> fst (process_uploaded_file demo_libs demo_processor
          \<lparr>name = lit ''blank.txt'', data = [32, 10]\<rparr> demo_world)"
proof -
  let ?up = "\<lparr>name = lit ''a.txt'', data = [104, 105]\<rparr>"
  let ?blank = "\<lparr>name = lit ''blank.txt'', data = [32, 10]\<rparr>"
  let ?fs1 = "\<lparr>nodes = [lit ''uploads'' \<mapsto> Dir], faults = Map.empty\<rparr>"
  have mk: "makedirs (lit ''uploads'') (fs demo_world) = Inr ?fs1"
    by (simp add: makedirs_def demo_world_def)
  have ex: "fst (extract_by_type demo_libs ?up) = Next (Some (lit ''hi''))"
    by (simp add: front_defs path_defs demo_defs)
  have ns: "\<not> py_isspace 104" by (simp add: py_isspace_def)
  then have ns': "\<exists>c \<in> set (lit ''hi''). \<not> py_isspace c" by simp
  have wt: "fst (write_text (lit ''uploads/'' @ name ?up @ lit ''_processed.txt'') (lit ''hi'') ?fs1) = None"
    by (simp add: write_text_def dirname_def is_surrogate_def)
  have st: "stem (name ?up) = lit ''a''" by (simp add: path_defs)
  have pr: "fst (demo_processor (dp demo_world)
       (fs (snd (process_uploaded_file demo_libs demo_processor ?up demo_world)))
       (lit ''uploads/'' @ name ?up @ lit ''_processed.txt'') (stem (name ?up))) = Inr True"
    by (simp add: front_defs path_defs demo_defs)
  have bl: "calls (snd (process_uploaded_file demo_libs demo_processor ?blank demo_world)) = calls demo_world"
    by (simp add: front_defs path_defs demo_defs)
  note thm_a = upload_hands_saved_file_to_processor [of demo_world demo_libs ?up demo_processor]
  note thm_b = upload_hands_saved_file_to_processor [of demo_world demo_libs ?blank demo_processor]
  from thm_a mk ex ns' wt
  have a: "calls (snd (process_uploaded_file demo_libs demo_processor ?up demo_world))
            = calls demo_world @ [Call ''process_text_file''
                           [lit ''uploads/'' @ name ?up @ lit ''_processed.txt'', stem (name ?up)]]
        \<and> nodes (fs (snd (process_uploaded_file demo_libs demo_processor ?up demo_world)))
             (lit ''uploads/'' @ name ?up @ lit ''_processed.txt'') = Some (File (lit ''hi''))
        \<and> fst (process_uploaded_file demo_libs demo_processor ?up demo_world)
            = (fst (demo_processor (dp demo_world)
                      (fs (snd (process_uploaded_file demo_libs demo_processor ?up demo_world)))
                      (lit ''uploads/'' @ name ?up @ lit ''_processed.txt'') (stem (name ?up)))
               = Inr True)"
    by blast
  from thm_b bl
  have b: "\<not> fst (process_uploaded_file demo_libs demo_processor ?blank demo_world)"
    by blast
  have c: "calls demo_world = []" by (simp add: demo_world_def)
  show ?thesis
    using mk ex ns wt a b bl pr st c by simp
qed

section \<open>Claims about the front end\<close>

text \<open>
  C3. When the text extracted from an upload is \<open>None\<close>, empty or made of whitespace
  only, \<open>process_uploaded_file\<close> returns \<open>False\<close>, makes no call on the document
  processor and leaves its state as it was.
\<close>

theorem blank_text_is_rejected:
  assumes "fst (extract_by_type L up) = Next tc"
    and "tc = None \<or> tc = Some [] \<or> (\<exists>t. tc = Some t \<and> (\<forall>c \<in> set t. py_isspace c))"
  shows "fst (process_uploaded_file L P up w) = False
       \<and> calls (snd (process_uploaded_file L P up w)) = calls w
       \<and> dp (snd (process_uploaded_file L P up w)) = dp w"
proof -
  have blank: "tc = None \<or> (\<exists>t. tc = Some t \<and> (\<forall>c \<in> set t. py_isspace c))"
    using assms(2) by auto
  obtain shown where ex: "extract_by_type L up = (Next tc, shown)"
    using assms(1) by (cases "extract_by_type L up") auto
  show ?thesis
    using ex save_and_process_blank [OF blank, of L P up]
    by (auto simp: process_uploaded_file_def process_body_def st_error_def split: sum.splits)
qed

theorem blank_text_is_rejected_witness:
  "fst (extract_by_type demo_libs \<lparr>name = lit ''blank.txt'', data = [32, 10]\<rparr>) = Next (Some [32, 10])
   \<and> py_isspace 32 \<and> py_isspace 10
   \<and> fst (process_uploaded_file demo_libs demo_processor
            \<lparr>name = lit ''blank.txt'', data = [32, 10]\<rparr> demo_world) = False
   \<and> calls (snd (process_uploaded_file demo_libs demo_processor
            \<lparr>name = lit ''blank.txt'', data = [32, 10]\<rparr> demo_world)) = []"
proof -
  let ?up = "\<lparr>name = lit ''blank.txt'', data = [32, 10]\<rparr>"
  have h1: "fst (extract_by_type demo_libs ?up) = Next (Some [32, 10])"
    by (simp add: front_defs path_defs demo_defs)
  have h2: "py_isspace 32 \<and> py_isspace 10" by (simp add: py_isspace_def)
  then have h3: "Some [32, 10] = None \<or> Some [32, 10] = Some []
      \<or> (\<exists>t. Some [32, 10] = Some t \<and> (\<forall>c \<in> set t. py_isspace c))" by simp
  show ?thesis
    using h1 h2 blank_text_is_rejected [OF h1 h3, of demo_processor demo_world]
    by (simp add: demo_world_def)
qed

text \<open>
  C4. When the library under an extractor raises, the extractor returns \<open>None\<close>
  instead of raising: \<open>extract_text_from_docx\<close>, \<open>extract_text_from_pdf\<close> (on
  opening the file or on any of its pages) and \<open>extract_text_from_csv\<close>. Then
  \<open>process_uploaded_file\<close> returns \<open>False\<close> and the document processor is not
  called.
\<close>

theorem extractors_degrade_gracefully:
  "(isl (docx_Document L (data file)) \<longrightarrow> fst (extract_text_from_docx L file) = None)
   \<and> ((case PdfReader L (data file) of Inl e \<Rightarrow> True | Inr pages \<Rightarrow> \<exists>p \<in> set pages. isl p)
        \<longrightarrow> fst (extract_text_from_pdf L file) = None)
   \<and> (isl (read_csv L (data file)) \<longrightarrow> fst (extract_text_from_csv L file) = None)
   \<and> (library_error L file \<longrightarrow>
        fst (process_uploaded_file L P file w) = False
        \<and> calls (snd (process_uploaded_file L P file w)) = calls w
        \<and> dp (snd (process_uploaded_file L P file w)) = dp w)"
proof (intro conjI impI)
  assume le: "library_error L file"
  obtain shown where ex: "extract_by_type L file = (Next None, shown)"
    using library_error_no_text [OF le] by (cases "extract_by_type L file") auto
  have sp: "\<And>w1. save_and_process L P file None w1 =
      (Inr False, st_error (lit ''Could not extract text from the file or file is empty'') w1)"
    by (rule save_and_process_blank) simp
  show "fst (process_uploaded_file L P file w) = False"
    using ex sp by (auto simp: process_uploaded_file_def process_body_def split: sum.splits)
  show "calls (snd (process_uploaded_file L P file w)) = calls w"
    using ex sp by (auto simp: process_uploaded_file_def process_body_def st_error_def split: sum.splits)
  show "dp (snd (process_uploaded_file L P file w)) = dp w"
    using ex sp by (auto simp: process_uploaded_file_def process_body_def st_error_def split: sum.splits)
qed (simp_all add: docx_error pdf_error csv_error)

theorem extractors_degrade_gracefully_witness:
  "isl (docx_Document demo_libs [])
   \<and> fst (extract_text_from_docx demo_libs \<lparr>name = lit ''a.docx'', data = []\<rparr>) = None
   \<and> PdfReader demo_libs [1] = Inr [Inr [1], Inl (PyErr ''KeyError'' (lit ''/Contents''))]
   \<and> fst (extract_text_from_pdf demo_libs \<lparr>name = lit ''b.PDF'', data = [1]\<rparr>) = None
   \<and> isl (read_csv demo_libs [])
   \<and> fst (extract_text_from_csv demo_libs \<lparr>name = lit ''c.csv'', data = []\<rparr>) = None
   \<and> library_error demo_libs \<lparr>name = lit ''a.docx'', data = []\<rparr>
   \<and> fst (process_uploaded_file demo_libs demo_processor \<lparr>name = lit ''a.docx'', data = []\<rparr> demo_world) = False
   \<and> library_error demo_libs \<lparr>name = lit ''b.PDF'', data = [1]\<rparr>
   \<and> fst (process_uploaded_file demo_libs demo_processor \<lparr>name = lit ''b.PDF'', data = [1]\<rparr> demo_world) = False
   \<and> library_error demo_libs \<lparr>name = lit ''c.csv'', data = []\<rparr>
   \<and> fst (process_uploaded_file demo_libs demo_processor \<lparr>name = lit ''c.csv'', data = []\<rparr> demo_world) = False
   \<and> calls (snd (process_uploaded_file demo_libs demo_processor \<lparr>name = lit ''c.csv'', data = []\<rparr> demo_world)) = []"
proof -
  let ?a = "\<lparr>name = lit ''a.docx'', data = []\<rparr>"
  let ?b = "\<lparr>name = lit ''b.PDF'', data = [1]\<rparr>"
  let ?c = "\<lparr>name = lit ''c.csv'', data = []\<rparr>"
  have a: "library_error demo_libs ?a" "isl (docx_Document demo_libs (data ?a))"
    by (simp_all add: library_error_def front_defs path_defs demo_defs)
  have b: "library_error demo_libs ?b"
      "PdfReader demo_libs [1] = Inr [Inr [1], Inl (PyErr ''KeyError'' (lit ''/Contents''))]"
    by (simp_all add: library_error_def front_defs path_defs demo_defs)
  have c: "library_error demo_libs ?c" "isl (read_csv demo_libs (data ?c))"
    by (simp_all add: library_error_def front_defs path_defs demo_defs)
  show ?thesis
    using a b c
      extractors_degrade_gracefully [of demo_libs ?a demo_processor demo_world]
      extractors_degrade_gracefully [of demo_libs ?b demo_processor demo_world]
      extractors_degrade_gracefully [of demo_libs ?c demo_processor demo_world]
    by (simp add: demo_world_def)
qed

text \<open>
  C5. Whenever processing an upload calls the document processor, it makes one call, and
  the document id it passes is the stem of the upload's name: the last component of the
  name is the id followed by the final extension (a dot and a non-empty rest without
  dots), and a name without a slash is itself the id followed by that extension.
\<close>

theorem document_id_is_stem:
  assumes "calls (snd (process_uploaded_file L P up w)) \<noteq> calls w"
  shows "\<exists>file_path ext.
           calls (snd (process_uploaded_file L P up w))
             = calls w @ [Call ''process_text_file'' [file_path, stem (name up)]]
         \<and> path_name (name up) = stem (name up) @ 46 # ext \<and> ext \<noteq> [] \<and> 46 \<notin> set ext
         \<and> (47 \<notin> set (name up) \<longrightarrow> name up = stem (name up) @ 46 # ext)"
proof -
  obtain r w' where run: "process_uploaded_file L P up w = (r, w')"
    by (cases "process_uploaded_file L P up w")
  from assms process_uploaded_file_cases [OF run] run
  have c: "calls (snd (process_uploaded_file L P up w))
      = calls w @ [Call ''process_text_file'' [processed_path up, stem (name up)]]"
    by auto
  have "suffix (name up) \<noteq> []"
    using ingest_extension [OF assms] by (rule py_lower_nonempty)
  then obtain ext where ext: "suffix (name up) = 46 # ext" "ext \<noteq> []" "46 \<notin> set ext"
    using suffix_shape by blast
  have pn: "path_name (name up) = stem (name up) @ 46 # ext"
    using stem_suffix [of "name up"] ext(1) by simp
  have "name up \<noteq> lit ''.''"
  proof
    assume "name up = lit ''.''"
    then have "suffix (name up) = []" by (simp add: path_defs)
    with ext(1) show False by simp
  qed
  then have "47 \<notin> set (name up) \<longrightarrow> path_name (name up) = name up"
    by (simp add: path_name_plain)
  with c pn ext show ?thesis by auto
qed

theorem document_id_is_stem_witness:
  "calls (snd (process_uploaded_file demo_libs demo_processor
       \<lparr>name = lit ''Q3.report.TXT'', data = [104, 105]\<rparr> demo_world)) \<noteq> calls demo_world
   \<and> calls (snd (process_uploaded_file demo_libs demo_processor
       \<lparr>name = lit ''Q3.report.TXT'', data = [104, 105]\<rparr> demo_world))
     = [Call ''process_text_file'' [lit ''uploads/Q3.report.TXT_processed.txt'', lit ''Q3.report'']]
   \<and> stem (lit ''Q3.report.TXT'') = lit ''Q3.report''"
proof -
  let ?up = "\<lparr>name = lit ''Q3.report.TXT'', data = [104, 105]\<rparr>"
  have h: "calls (snd (process_uploaded_file demo_libs demo_processor ?up demo_world)) \<noteq> calls demo_world"
    by (simp add: front_defs path_defs demo_defs)
  have s: "stem (lit ''Q3.report.TXT'') = lit ''Q3.report''"
    by (simp add: path_defs)
  from document_id_is_stem [OF h] obtain file_path where
    "calls (snd (process_uploaded_file demo_libs demo_processor ?up demo_world))
       = calls demo_world @ [Call ''process_text_file'' [file_path, stem (name ?up)]]"
    by blast
  moreover have "calls (snd (process_uploaded_file demo_libs demo_processor ?up demo_world))
       = [Call ''process_text_file'' [lit ''uploads/Q3.report.TXT_processed.txt'', lit ''Q3.report'']]"
    by (simp add: front_defs path_defs demo_defs)
  ultimately show ?thesis using h s by simp
qed

text \<open>
  C8. When the lower-cased extension of the upload's name is none of \<open>.txt\<close>,
  \<open>.docx\<close>, \<open>.pdf\<close> and \<open>.csv\<close>, \<open>process_uploaded_file\<close> returns \<open>False\<close>.
  No text is extracted: the extension check returns at once, and the result does not
  depend on what the decoder, the parsers or the processor would do. No file is
  written: the only path that can change is \<open>uploads\<close> itself, which may have become a
  directory. The document processor is not called and keeps its state.
\<close>

theorem unsupported_extension_is_rejected:
  assumes "py_lower (lower_unicode L) (suffix (name up)) \<notin> supported"
  shows "fst (process_uploaded_file L P up w) = False
       \<and> fst (extract_by_type L up) = Return False
       \<and> calls (snd (process_uploaded_file L P up w)) = calls w
       \<and> dp (snd (process_uploaded_file L P up w)) = dp w
       \<and> (\<forall>q. q \<noteq> lit ''uploads''
             \<longrightarrow> nodes (fs (snd (process_uploaded_file L P up w))) q = nodes (fs w) q)
       \<and> (nodes (fs (snd (process_uploaded_file L P up w))) (lit ''uploads'') = nodes (fs w) (lit ''uploads'')
            \<or> nodes (fs (snd (process_uploaded_file L P up w))) (lit ''uploads'') = Some Dir)
       \<and> process_uploaded_file L P up w =
           process_uploaded_file
             (L\<lparr>decode_utf8 := utf8', docx_Document := docx', PdfReader := pdf', read_csv := csv'\<rparr>)
             P' up w"
proof -
  let ?L' = "L\<lparr>decode_utf8 := utf8', docx_Document := docx', PdfReader := pdf', read_csv := csv'\<rparr>"
  have ex: "extract_by_type L up =
     (Return False,
      [St_error (lit ''Unsupported file type: '' @ py_lower (lower_unicode L) (suffix (name up)))])"
    using assms by (rule unsupported_extract)
  have "py_lower (lower_unicode ?L') (suffix (name up)) \<notin> supported" using assms by simp
  then have ex': "extract_by_type ?L' up =
     (Return False,
      [St_error (lit ''Unsupported file type: '' @ py_lower (lower_unicode L) (suffix (name up)))])"
    using unsupported_extract [of ?L' up] by simp
  show ?thesis
  proof (cases "makedirs (lit ''uploads'') (fs w)")
    case (Inl e)
    then show ?thesis using ex ex'
      by (simp add: process_uploaded_file_def process_body_def st_error_def)
  next
    case (Inr fs1)
    from makedirs_ok [OF Inr] show ?thesis using Inr ex ex'
      by (simp add: process_uploaded_file_def process_body_def st_error_def)
  qed
qed

theorem unsupported_extension_is_rejected_witness:
  "py_lower (lower_unicode demo_libs) (suffix (lit ''slides.PPTX'')) = lit ''.pptx''
   \<and> lit ''.pptx'' \<notin> supported
   \<and> fst (process_uploaded_file demo_libs demo_processor
        \<lparr>name = lit ''slides.PPTX'', data = [80, 75]\<rparr> demo_world) = False
   \<and> calls (snd (process_uploaded_file demo_libs demo_processor
        \<lparr>name = lit ''slides.PPTX'', data = [80, 75]\<rparr> demo_world)) = []
   \<and> nodes (fs (snd (process_uploaded_file demo_libs demo_processor
        \<lparr>name = lit ''slides.PPTX'', data = [80, 75]\<rparr> demo_world)))
          (lit ''uploads/slides.PPTX_processed.txt'') = None"
proof -
  let ?up = "\<lparr>name = lit ''slides.PPTX'', data = [80, 75]\<rparr>"
  have e: "py_lower (lower_unicode demo_libs) (suffix (lit ''slides.PPTX'')) = lit ''.pptx''"
    by (simp add: front_defs path_defs demo_defs)
  have n: "lit ''.pptx'' \<notin> supported" by (simp add: supported_def)
  have h: "py_lower (lower_unicode demo_libs) (suffix (name ?up)) \<notin> supported"
    using e n by simp
  have "lit ''uploads/slides.PPTX_processed.txt'' \<noteq> lit ''uploads''" by simp
  then show ?thesis
    using e n unsupported_extension_is_rejected [OF h, of demo_processor demo_world]
    by (simp add: demo_world_def)
qed

text \<open>
  C9. When \<open>process_uploaded_file\<close> returns \<open>True\<close>, text was extracted, the
  directory \<open>uploads\<close> exists, the file \<open>uploads/<name>_processed.txt\<close> holds exactly
  that text, and the document processor was called on a file system that already held
  it. The file holds the text whatever was at that path before, so processing a later
  upload of the same name with success leaves the later text there.
\<close>

theorem extracted_text_is_persisted:
  assumes "process_uploaded_file (L :: 'c libs) P up w = (True, w')"
  shows "\<exists>t. fst (extract_by_type L up) = Next (Some t)
           \<and> nodes (fs w') (lit ''uploads'') = Some Dir
           \<and> nodes (fs w') (lit ''uploads/'' @ name up @ lit ''_processed.txt'') = Some (File t)
           \<and> P (dp w) (fs w') (lit ''uploads/'' @ name up @ lit ''_processed.txt'') (stem (name up))
               = (Inr True, dp w')
           \<and> (\<forall>(L2 :: 'c libs) up2 w2. name up2 = name up \<and> process_uploaded_file L2 P up2 w' = (True, w2)
                \<longrightarrow> (\<exists>t2. fst (extract_by_type L2 up2) = Next (Some t2)
                       \<and> nodes (fs w2) (lit ''uploads/'' @ name up @ lit ''_processed.txt'')
                           = Some (File t2)))"
proof -
  from process_uploaded_file_cases [OF assms]
  obtain t where t: "fst (extract_by_type L up) = Next (Some t)"
      "nodes (fs w') (processed_path up) = Some (File t)"
      "nodes (fs w') (lit ''uploads'') = Some Dir"
      "P (dp w) (fs w') (processed_path up) (stem (name up)) = (Inr True, dp w')"
    by auto
  have again: "\<exists>t2. fst (extract_by_type L2 up2) = Next (Some t2)
        \<and> nodes (fs w2) (processed_path up) = Some (File t2)"
    if "name up2 = name up" and run2: "process_uploaded_file L2 P up2 w' = (True, w2)"
    for L2 :: "'c libs" and up2 w2
  proof -
    have "processed_path up2 = processed_path up"
      using that(1) by (simp add: processed_path_def)
    with process_uploaded_file_cases [OF run2] show ?thesis by auto
  qed
  show ?thesis
    using t again unfolding processed_path_def by blast
qed

theorem extracted_text_is_persisted_witness:
  "fst (process_uploaded_file demo_libs demo_processor
          \<lparr>name = lit ''a.txt'', data = [104, 105]\<rparr> demo_world) = True
   \<and> nodes (fs (snd (process_uploaded_file demo_libs demo_processor
          \<lparr>name = lit ''a.txt'', data = [104, 105]\<rparr> demo_world)))
       (lit ''uploads/a.txt_processed.txt'') = Some (File (lit ''hi''))
   \<and> nodes (fs (snd (process_uploaded_file demo_libs demo_processor
          \<lparr>name = lit ''a.txt'', data = [104, 105]\<rparr> demo_world)))
       (lit ''uploads'') = Some Dir
   \<and> nodes (fs (snd (process_uploaded_file demo_libs demo_processor
          \<lparr>name = lit ''a.txt'', data = [121, 111]\<rparr>
          (snd (process_uploaded_file demo_libs demo_processor
             \<lparr>name = lit ''a.txt'', data = [104, 105]\<rparr> demo_world)))))
       (lit ''uploads/a.txt_processed.txt'') = Some (File (lit ''yo''))"
proof -
  let ?u1 = "\<lparr>name = lit ''a.txt'', data = [104, 105]\<rparr>"
  let ?u2 = "\<lparr>name = lit ''a.txt'', data = [121, 111]\<rparr>"
  let ?r1 = "process_uploaded_file demo_libs demo_processor ?u1 demo_world"
  let ?r2 = "process_uploaded_file demo_libs demo_processor ?u2 (snd ?r1)"
  have f1: "fst ?r1 = True" by (simp add: front_defs path_defs demo_defs)
  then have h1: "?r1 = (True, snd ?r1)" by (simp add: prod_eq_iff)
  have e1: "fst (extract_by_type demo_libs ?u1) = Next (Some (lit ''hi''))"
    by (simp add: front_defs path_defs demo_defs)
  have e2: "fst (extract_by_type demo_libs ?u2) = Next (Some (lit ''yo''))"
    by (simp add: front_defs path_defs demo_defs)
  from extracted_text_is_persisted [OF h1] obtain t where
      t: "fst (extract_by_type demo_libs ?u1) = Next (Some t)"
        "nodes (fs (snd ?r1)) (lit ''uploads'') = Some Dir"
        "nodes (fs (snd ?r1)) (lit ''uploads/'' @ name ?u1 @ lit ''_processed.txt'') = Some (File t)"
    and later: "\<forall>(L2 :: nat libs) up2 w2. name up2 = name ?u1
          \<and> process_uploaded_file L2 demo_processor up2 (snd ?r1) = (True, w2)
        \<longrightarrow> (\<exists>t2. fst (extract_by_type L2 up2) = Next (Some t2)
              \<and> nodes (fs w2) (lit ''uploads/'' @ name ?u1 @ lit ''_processed.txt'') = Some (File t2))"
    by blast
  have first: "nodes (fs (snd ?r1)) (lit ''uploads/'' @ name ?u1 @ lit ''_processed.txt'') = Some (File (lit ''hi''))"
    using t(1,3) e1 by simp
  have f2: "fst ?r2 = True"
    by (simp add: front_defs path_defs demo_defs)
  then have h2: "?r2 = (True, snd ?r2)" by (simp add: prod_eq_iff)
  have "name ?u2 = name ?u1" by simp
  with later h2 obtain t2 where "fst (extract_by_type demo_libs ?u2) = Next (Some t2)"
      "nodes (fs (snd ?r2)) (lit ''uploads/'' @ name ?u1 @ lit ''_processed.txt'') = Some (File t2)"
    by blast
  with e2 have "nodes (fs (snd ?r2)) (lit ''uploads/'' @ name ?u1 @ lit ''_processed.txt'') = Some (File (lit ''yo''))"
    by simp
  with f1 first t(2) show ?thesis by simp
qed

text \<open>
  C10. For a CSV file that \<open>read_csv\<close> parses into a frame, \<open>extract_text_from_csv\<close>
  returns this text, in this order: the file's name, the column names joined by a comma
  and a space, the number of rows, the rendering of the first rows of the frame (the
  first ten, or all of them when there are fewer), and then the summary statistics of
  the numeric columns exactly when there is a numeric column.
\<close>

theorem csv_text_layout:
  assumes "read_csv L (data file) = Inr df"
  shows "fst (extract_text_from_csv L file) =
           Some (lit ''CSV Data from '' @ name file @ lit '':'' @ nl @ nl
                 @ lit ''Columns: '' @ py_join (lit '', '') (map fst (columns df)) @ nl @ nl
                 @ lit ''Total rows: '' @ py_str_nat (length (rows df)) @ nl @ nl
                 @ lit ''Sample data:'' @ nl
                 @ to_string_noindex L (head 10 df)
                 @ (if \<exists>c \<in> set (columns df). is_number (snd c)
                    then nl @ nl @ lit ''Summary Statistics:'' @ nl
                           @ describe_to_string L (select_cols (numeric_cols df) df)
                    else []))
       \<and> columns (head 10 df) = columns df
       \<and> rows (head 10 df) = take 10 (rows df)
       \<and> length (rows (head 10 df)) \<le> 10"
proof -
  have n: "0 < length (numeric_cols df) \<longleftrightarrow> (\<exists>c \<in> set (columns df). is_number (snd c))"
    by (auto simp: numeric_cols_def filter_empty_conv)
  show ?thesis
    using assms n by (simp add: extract_text_from_csv_def csv_text_def head_def Let_def)
qed

theorem csv_text_layout_witness:
  "read_csv demo_libs [1] = Inr demo_frame
   \<and> is_number (snd (lit ''qty'', Int64))
   \<and> fst (extract_text_from_csv demo_libs \<lparr>name = lit ''t.csv'', data = [1]\<rparr>) =
       Some (lit ''CSV Data from t.csv:'' @ nl @ nl
             @ lit ''Columns: item, qty'' @ nl @ nl
             @ lit ''Total rows: 2'' @ nl @ nl
             @ lit ''Sample data:'' @ nl
             @ lit ''0 2'' @ nl @ lit ''1 5''
             @ nl @ nl @ lit ''Summary Statistics:'' @ nl @ lit ''count 2'')"
proof -
  let ?f = "\<lparr>name = lit ''t.csv'', data = [1]\<rparr>"
  have h: "read_csv demo_libs (data ?f) = Inr demo_frame" by (simp add: demo_libs_def)
  have r: "py_str_nat 0 = lit ''0''" "py_str_nat 1 = lit ''1''" "py_str_nat 2 = lit ''2''"
      "py_str_nat 5 = lit ''5''" "py_str_nat (Suc 0) = lit ''1''"
      "py_str_nat (Suc (Suc 0)) = lit ''2''"
    by (simp_all add: py_str_nat.simps)
  show ?thesis
    using h csv_text_layout [OF h]
    by (simp add: r demo_libs_def demo_frame_def is_number_def numeric_cols_def select_cols_def
          head_def nl_def)
qed

section \<open>Claims about the core\<close>



text \<open>
  C6. Whatever the store holds, after \<open>clear_all_documents\<close> the snapshot reports
  \<open>total_documents = 0\<close> and the dimension the store had. So the line that
  reprocess_docs.py prints gives the number of chunks in the store made by ingesting
  the sample documents into the cleared store; every one of these chunks got its key
  after the clear and belongs to a sample document; and the line is the same whatever
  chunks the store held before.
\<close>

theorem clear_then_stats_is_zero:
  "get_vector_store_stats (clear_all_documents s) (lit ''total_documents'') = Some 0
   \<and> get_vector_store_stats (clear_all_documents s) (lit ''dimension'') = Some (dimension s)
   \<and> reprocess_docs env s =
       Inr ([9989] @ lit '' Success! Processed ''
            @ py_str_nat (length (entries (add_sample_documents env (clear_all_documents s))))
            @ lit '' document chunks'')
   \<and> (\<forall>e \<in> set (entries (add_sample_documents env (clear_all_documents s))).
         next_key s \<le> fst e \<and> document_id (snd e) \<in> fst ` set (samples env))
   \<and> reprocess_docs env (s\<lparr>entries := old\<rparr>) = reprocess_docs env s"
proof -
  have a: "get_vector_store_stats (clear_all_documents s) (lit ''total_documents'') = Some 0"
    by (simp add: get_vector_store_stats_def clear_all_documents_def clear_def stats_def)
  have b: "get_vector_store_stats (clear_all_documents s) (lit ''dimension'') = Some (dimension s)"
    by (simp add: get_vector_store_stats_def clear_all_documents_def clear_def stats_def)
  have c: "next_key s \<le> fst e \<and> document_id (snd e) \<in> fst ` set (samples env)"
    if "e \<in> set (entries (add_sample_documents env (clear_all_documents s)))" for e
    using ingest_all_entries [of e env "clear_all_documents s" "samples env"] that
    by (simp add: add_sample_documents_def clear_all_documents_def clear_def)
  have d: "clear_all_documents (s\<lparr>entries := old\<rparr>) = clear_all_documents s"
    by (simp add: clear_all_documents_def clear_def)
  have e: "reprocess_docs env (s\<lparr>entries := old\<rparr>) = reprocess_docs env s"
    by (simp only: reprocess_docs_def d)
  from a b c e reprocess_docs_line [of env s] show ?thesis by blast
qed

text \<open>
  On a store that holds two chunks of an old document, the script clears, ingests the
  two sample documents under the keys 2 and 3, and reports 2 chunks.
\<close>

theorem clear_then_stats_is_zero_witness:
  "entries demo_store \<noteq> []
   \<and> get_vector_store_stats (clear_all_documents demo_store) (lit ''total_documents'') = Some 0
   \<and> get_vector_store_stats (clear_all_documents demo_store) (lit ''dimension'') = Some 1
   \<and> map fst (entries (add_sample_documents demo_core (clear_all_documents demo_store))) = [2, 3]
   \<and> reprocess_docs demo_core demo_store
       = Inr ([9989] @ lit '' Success! Processed 2 document chunks'')
   \<and> map (\<lambda>e. document_id (snd e))
         (entries (add_sample_documents demo_core (clear_all_documents demo_store)))
       = [lit ''hr-policy'', lit ''it'']"
proof -
  have n: "entries demo_store \<noteq> []" "next_key demo_store = 2" "dimension demo_store = 1"
    "fst ` set (samples demo_core) = {lit ''hr-policy'', lit ''it''}"
    by (simp_all add: demo_store_def demo_core_def)
  have f: "map fst (entries (add_sample_documents demo_core (clear_all_documents demo_store))) = [2, 3]"
    by (simp add: core_defs demo_core_defs)
  then have l: "length (entries (add_sample_documents demo_core (clear_all_documents demo_store))) = 2"
    by (metis length_map length_Cons list.size(3) Suc_1 One_nat_def)
  have i: "map (\<lambda>e. document_id (snd e))
         (entries (add_sample_documents demo_core (clear_all_documents demo_store)))
       = [lit ''hr-policy'', lit ''it'']"
    by (simp add: core_defs demo_core_defs)
  have r: "py_str_nat 2 = lit ''2''" by (simp add: py_str_nat.simps)
  from clear_then_stats_is_zero [of demo_store demo_core "[]"] n f i
  show ?thesis by (simp only: l r) simp
qed

text \<open>
  C7. The snapshot that \<open>get_vector_store_stats\<close> returns has the keys
  \<open>total_documents\<close> and \<open>dimension\<close> and no other. \<open>total_documents\<close> is the number
  of chunks that the store holds at the call: after an insertion, a deletion by
  document or a clear, the next snapshot gives the new count. \<open>dimension\<close> is the
  dimension of the store. So the two look-ups of frontend.py, lines 209 and 210, and the
  look-up of reprocess_docs.py, line 8, find their keys, and neither block raises.
\<close>

theorem stats_snapshot_has_both_keys:
  "dom (get_vector_store_stats s) = {lit ''total_documents'', lit ''dimension''}
   \<and> get_vector_store_stats s (lit ''total_documents'') = Some (length (entries s))
   \<and> get_vector_store_stats s (lit ''dimension'') = Some (dimension s)
   \<and> get_vector_store_stats (insert_chunks chunks s) (lit ''total_documents'')
       = Some (length (entries s) + length chunks)
   \<and> get_vector_store_stats (snd (delete_by_document d s)) (lit ''total_documents'')
       = Some (length (entries s) - fst (delete_by_document d s))
   \<and> get_vector_store_stats (clear s) (lit ''total_documents'') = Some 0
   \<and> show_stats (get_vector_store_stats s)
       = (None, [(lit ''Total Documents'', length (entries s)),
                 (lit ''Vector Dimension'', dimension s)])
   \<and> dict_get (get_vector_store_stats s) (lit ''total_documents'') = Inr (length (entries s))
   \<and> (\<exists>line. reprocess_docs env s = Inr line)"
proof -
  have a: "dom (get_vector_store_stats s) = {lit ''total_documents'', lit ''dimension''}"
    by (simp add: get_vector_store_stats_def stats_dom)
  have b: "get_vector_store_stats t (lit ''total_documents'') = Some (length (entries t))"
    for t :: "'a vector_store"
    by (simp add: get_vector_store_stats_def stats_def)
  have c: "get_vector_store_stats s (lit ''dimension'') = Some (dimension s)"
    by (simp add: get_vector_store_stats_def stats_def)
  have i: "length (entries (insert_chunks chunks s)) = length (entries s) + length chunks"
    by (simp add: insert_chunks_def)
  have k: "length (entries (snd (delete_by_document d s)))
             = length (entries s) - fst (delete_by_document d s)"
    using sum_length_filter_compl [of "\<lambda>e. document_id (snd e) = d" "entries s"]
    by (simp add: delete_by_document_def)
  have z: "length (entries (clear s)) = 0" by (simp add: clear_def)
  have f: "show_stats (get_vector_store_stats s)
       = (None, [(lit ''Total Documents'', length (entries s)),
                 (lit ''Vector Dimension'', dimension s)])"
    by (simp only: show_stats_def dict_get_total dict_get_dimension sum.case)
  have r: "\<exists>line. reprocess_docs env s = Inr line"
    using reprocess_docs_line [of env s] by blast
  from a b [of s] b [of "insert_chunks chunks s"] b [of "snd (delete_by_document d s)"]
    b [of "clear s"] c i k z f r dict_get_total [of s]
  show ?thesis by simp
qed

text \<open>
  On the store with two chunks the front end shows 2 documents of dimension 1, and
  the script prints its line.
\<close>

theorem stats_snapshot_has_both_keys_witness:
  "dom (get_vector_store_stats demo_store) = {lit ''total_documents'', lit ''dimension''}
   \<and> show_stats (get_vector_store_stats demo_store)
       = (None, [(lit ''Total Documents'', 2), (lit ''Vector Dimension'', 1)])
   \<and> get_vector_store_stats (clear demo_store) (lit ''total_documents'') = Some 0
   \<and> (\<exists>line. reprocess_docs demo_core demo_store = Inr line)"
proof -
  have n: "length (entries demo_store) = 2" "dimension demo_store = 1"
    by (simp_all add: demo_store_def)
  from stats_snapshot_has_both_keys [of demo_store "[]" "[]" demo_core] n
  show ?thesis by simp
qed

end
